theory Spec2Isabelle
  imports Main "HOL-Library.Char_ord" "HOL-Library.List_Lexorder"
begin

section \<open>Operations, failures and the output buffer\<close>

text \<open>
  The step operations of package \<open>deploy\<close>.  Every write of \<open>diff.go\<close> goes through
  \<open>writeWithIndent\<close>, which brackets the text between \<open>op.Color()\<close> and
  \<open>colors.Reset\<close>: the operation is the tag of what is written.
\<close>

datatype StepOp =
  OpSame | OpCreate | OpUpdate | OpDelete | OpReplace | OpCreateReplacement | OpDeleteReplaced

text \<open>
  Modelled from the spec: \<open>StepOp.RawPrefix\<close> is declared in package \<open>deploy\<close>, outside
  \<open>diff.go\<close>.  The spec binds every operation tag to a glyph of exactly two characters;
  the glyphs below are the ones the deployment engine prints.
\<close>

fun RawPrefix :: "StepOp \<Rightarrow> string" where
  "RawPrefix OpSame = ''  ''"
| "RawPrefix OpCreate = ''+ ''"
| "RawPrefix OpUpdate = ''~ ''"
| "RawPrefix OpDelete = ''- ''"
| "RawPrefix OpReplace = ''+-''"
| "RawPrefix OpCreateReplacement = ''++''"
| "RawPrefix OpDeleteReplaced = ''--''"

text \<open>
  A failed \<open>contract.Assert\<close>/\<open>contract.Failf\<close>, a failed Go type assertion and a
  slice index out of range all panic; inside the renderers these are the only ways not
  to return.
\<close>

datatype failure = AssertFailed | TypeAssertionFailed | IndexOutOfRange

text \<open>
  The \<open>bytes.Buffer\<close>: the sequence of writes.  \<open>Styled op s\<close> is what
  \<open>writeWithIndent\<close> appends (colour of \<open>op\<close>, \<open>s\<close>, reset); \<open>Plain s\<close> is a bare
  \<open>WriteString\<close>.
\<close>

datatype seg = Styled StepOp string | Plain string

type_synonym out = "seg list"
type_synonym result = "failure + out"

text \<open>Sequencing of two writers: the first panic wins, otherwise the outputs are appended.\<close>

definition thenE :: "result \<Rightarrow> result \<Rightarrow> result" where
  "thenE a b =
     (case a of Inl e \<Rightarrow> Inl e
      | Inr x \<Rightarrow> (case b of Inl e \<Rightarrow> Inl e | Inr y \<Rightarrow> Inr (x @ y)))"

fun seqAll :: "result list \<Rightarrow> result" where
  "seqAll [] = Inr []"
| "seqAll (r # rs) = thenE r (seqAll rs)"

definition NL :: string where
  "NL = [CHR 0x0A]"

definition DQ :: string where
  "DQ = [CHR 0x22]"

subsection \<open>Decimal rendering of integers (\<open>strconv.Itoa\<close>, \<open>%d\<close>)\<close>

definition digitChar :: "nat \<Rightarrow> char" where
  "digitChar n = char_of (48 + n)"

fun showNat :: "nat \<Rightarrow> string" where
  "showNat n = (if n < 10 then [digitChar n] else showNat (n div 10) @ [digitChar (n mod 10)])"

declare showNat.simps [simp del]

definition Itoa :: "int \<Rightarrow> string" where
  "Itoa i = (if i < 0 then ''-'' @ showNat (nat (- i)) else showNat (nat i))"

section \<open>Indentation and op-styling\<close>

text \<open>
  \<open>getIndentationString\<close>: the loop appends four spaces \<open>indent\<close> times (not at all for
  \<open>indent \<le> 0\<close>); an empty result with \<open>prefix\<close> set fails the first assertion; the two
  later assertions guard the glyph's length and the slice.
\<close>

definition getIndentationString :: "int \<Rightarrow> StepOp \<Rightarrow> bool \<Rightarrow> failure + string" where
  "getIndentationString indent op prefix =
     (let result = concat (replicate (nat indent) ''    '') in
      if result = [] then (if prefix then Inl AssertFailed else Inr result)
      else
        (let rp = (if prefix then RawPrefix op else ''  '') in
         if length rp \<noteq> 2 then Inl AssertFailed
         else if \<not> (length result \<ge> 2) then Inl AssertFailed
         else Inr (take (length result - 2) result @ rp)))"

definition writeWithIndent :: "int \<Rightarrow> StepOp \<Rightarrow> bool \<Rightarrow> string \<Rightarrow> result" where
  "writeWithIndent indent op prefix s =
     (case getIndentationString indent op prefix of
        Inl e \<Rightarrow> Inl e
      | Inr ind \<Rightarrow> Inr [Styled op (ind @ s)])"

definition writeWithIndentNoPrefix :: "int \<Rightarrow> StepOp \<Rightarrow> string \<Rightarrow> result" where
  "writeWithIndentNoPrefix indent op s = writeWithIndent indent op False s"

text \<open>\<open>write\<close> of the source (the name is reserved in Isabelle); the format is already expanded.\<close>

definition writeFmt :: "StepOp \<Rightarrow> string \<Rightarrow> result" where
  "writeFmt op s = writeWithIndentNoPrefix 0 op s"

definition writeVerbatim :: "StepOp \<Rightarrow> string \<Rightarrow> result" where
  "writeVerbatim op s = writeWithIndentNoPrefix 0 op s"

subsection \<open>Hashes\<close>

definition shortHash :: "string \<Rightarrow> string" where
  "shortHash hash = (if length hash > 7 then take 7 hash else hash)"

definition getTextChangeString :: "string \<Rightarrow> string \<Rightarrow> string" where
  "getTextChangeString old new = (if old = new then old else old @ ''->'' @ new)"

section \<open>Data model\<close>

text \<open>Go's \<open>float64\<close>; numbers are only ever formatted, never computed with.\<close>

typedecl float64

text \<open>
  Modelled from the spec: \<open>Asset\<close> and \<open>Archive\<close> are declared in package \<open>resource\<close>,
  outside \<open>diff.go\<close>.  The spec gives an asset as text, file or URI, each with a content
  hash, and an archive as file, URI or a map from names to assets and archives, with a
  hash.  A map is an association list read with \<open>map_of\<close>; its keys are its names with
  duplicates removed.
\<close>

datatype Asset =
  TextAsset string string
| FileAsset string string
| URIAsset string string

datatype Archive =
  FileArchive string string
| URIArchive string string
| AssetsArchive "(string \<times> AssetOrArchive) list" string
and AssetOrArchive =
  IsAsset Asset
| IsArchive Archive

fun AssetHash :: "Asset \<Rightarrow> string" where
  "AssetHash (TextAsset t h) = h"
| "AssetHash (FileAsset p h) = h"
| "AssetHash (URIAsset u h) = h"

fun AssetText :: "Asset \<Rightarrow> string" where
  "AssetText (TextAsset t h) = t"
| "AssetText (FileAsset p h) = []"
| "AssetText (URIAsset u h) = []"

fun AssetIsText :: "Asset \<Rightarrow> bool" where
  "AssetIsText (TextAsset t h) = True"
| "AssetIsText (FileAsset p h) = False"
| "AssetIsText (URIAsset u h) = False"

fun AssetGetPath :: "Asset \<Rightarrow> string option" where
  "AssetGetPath (TextAsset t h) = None"
| "AssetGetPath (FileAsset p h) = Some p"
| "AssetGetPath (URIAsset u h) = None"

fun AssetGetURI :: "Asset \<Rightarrow> string option" where
  "AssetGetURI (TextAsset t h) = None"
| "AssetGetURI (FileAsset p h) = None"
| "AssetGetURI (URIAsset u h) = Some u"

definition AssetIsURI :: "Asset \<Rightarrow> bool" where
  "AssetIsURI a = (AssetGetURI a \<noteq> None)"

fun ArchiveHash :: "Archive \<Rightarrow> string" where
  "ArchiveHash (FileArchive p h) = h"
| "ArchiveHash (URIArchive u h) = h"
| "ArchiveHash (AssetsArchive es h) = h"

fun ArchiveGetAssets :: "Archive \<Rightarrow> (string \<times> AssetOrArchive) list option" where
  "ArchiveGetAssets (FileArchive p h) = None"
| "ArchiveGetAssets (URIArchive u h) = None"
| "ArchiveGetAssets (AssetsArchive es h) = Some es"

fun ArchiveGetPath :: "Archive \<Rightarrow> string option" where
  "ArchiveGetPath (FileArchive p h) = Some p"
| "ArchiveGetPath (URIArchive u h) = None"
| "ArchiveGetPath (AssetsArchive es h) = None"

fun ArchiveGetURI :: "Archive \<Rightarrow> string option" where
  "ArchiveGetURI (FileArchive p h) = None"
| "ArchiveGetURI (URIArchive u h) = Some u"
| "ArchiveGetURI (AssetsArchive es h) = None"

definition ArchiveIsURI :: "Archive \<Rightarrow> bool" where
  "ArchiveIsURI a = (ArchiveGetURI a \<noteq> None)"

definition ArchiveIsAssets :: "Archive \<Rightarrow> bool" where
  "ArchiveIsAssets a = (ArchiveGetAssets a \<noteq> None)"

text \<open>
  Modelled from the spec: \<open>PropertyValue\<close>, the tagged union of package \<open>resource\<close>.
  \<open>PComputed\<close> and \<open>POutput\<close> carry the element that stands for the declared type.
\<close>

datatype PropertyValue =
  PNull
| PBool bool
| PNumber float64
| PString string
| PArray "PropertyValue list"
| PObject "(string \<times> PropertyValue) list"
| PAsset Asset
| PArchive Archive
| PComputed PropertyValue
| POutput PropertyValue

type_synonym PropertyMap = "(string \<times> PropertyValue) list"

text \<open>
  Modelled from the spec: the pre-computed structural diff of package \<open>resource\<close>.  A
  \<open>ValueDiff\<close> is a leaf when it carries neither an array nor an object diff; the length
  of an \<open>ArrayDiff\<close> is a component of it.
\<close>

datatype ValueDiff =
  ValueDiff (Old: PropertyValue) (New: PropertyValue)
    (Array: "ArrayDiff option") (Object: "ObjectDiff option")
and ArrayDiff =
  ArrayDiff (Len: int) (ArrAdds: "(int \<times> PropertyValue) list")
    (ArrDeletes: "(int \<times> PropertyValue) list") (ArrUpdates: "(int \<times> ValueDiff) list")
    (ArrSames: "(int \<times> PropertyValue) list")
and ObjectDiff =
  ObjectDiff (Adds: PropertyMap) (Deletes: PropertyMap)
    (Updates: "(string \<times> ValueDiff) list") (Sames: PropertyMap)

text \<open>The runs of a line diff (\<open>diffmatchpatch.Diff\<close>).\<close>

datatype Operation = DiffDelete | DiffInsert | DiffEqual

datatype Diff = Diff (Type: Operation) (Text: string)

text \<open>
  What \<open>diff.go\<close> calls and this repository does not define, or defines elsewhere: the
  formatting verbs of \<open>fmt\<close> that are not plain insertion (\<open>%v\<close> of a number, \<open>%q\<close>, a
  format printed with no operands), \<open>PropertyValue.TypeString\<close>,
  \<open>resource.MassageIfUserProgramCodeAsset\<close>, the line differ of \<open>diffmatchpatch\<close>
  (\<open>DiffLinesToChars\<close>, \<open>DiffMain\<close>, \<open>DiffCharsToLines\<close>) and \<open>PropertyMap.Diff\<close>.
\<close>

record externals =
  fmtNumber :: "float64 \<Rightarrow> string"
  fmtQuote :: "string \<Rightarrow> string"
  fmtNoOperands :: "string \<Rightarrow> string"
  TypeString :: "PropertyValue \<Rightarrow> string"
  MassageIfUserProgramCodeAsset :: "Asset \<Rightarrow> bool \<Rightarrow> Asset"
  DiffLines :: "string \<Rightarrow> string \<Rightarrow> Diff list"
  PropertyMapDiff :: "PropertyMap \<Rightarrow> PropertyMap \<Rightarrow> ObjectDiff option"

subsection \<open>Keys of maps\<close>

text \<open>The names of a map in \<open>sort.Strings\<close> order (\<open>StableKeys\<close>, and the explicit sorts).\<close>

definition sortedNames :: "(string \<times> 'a) list \<Rightarrow> string list" where
  "sortedNames m = sort (remdups (map fst m))"

definition maxKey :: "string list \<Rightarrow> nat" where
  "maxKey keys = fold (\<lambda>k maxkey. if length k > maxkey then length k else maxkey) keys 0"

text \<open>\<open>strings.Split(s, "\n")\<close>: the pieces between line feeds, at least one.\<close>

fun splitLines :: "string \<Rightarrow> string list" where
  "splitLines [] = [[]]"
| "splitLines (c # cs) =
     (if c = CHR 0x0A then [] # splitLines cs
      else (case splitLines cs of [] \<Rightarrow> [[c]] | l # ls \<Rightarrow> (c # l) # ls))"

subsection \<open>Runes\<close>

text \<open>
  A Go string is a sequence of bytes.  The standard library reads it as UTF-8 where it
  counts or classifies characters: \<open>fmt\<close> pads \<open>%-Ns\<close> to \<open>N\<close> runes and
  \<open>strings.TrimSpace\<close> trims the white space of Unicode.  \<open>utf8.DecodeRuneInString\<close>
  returns the first rune of a string and the number of bytes it takes; bytes that do not
  begin a well-formed encoding decode to \<open>RuneError\<close>, one byte wide.
\<close>

definition RuneError :: int where
  "RuneError = 0xFFFD"

definition byteIn :: "int \<Rightarrow> int \<Rightarrow> char \<Rightarrow> bool" where
  "byteIn lo hi c = (lo \<le> of_char c \<and> (of_char c :: int) \<le> hi)"

fun DecodeRuneInString :: "string \<Rightarrow> int \<times> nat" where
  "DecodeRuneInString [] = (RuneError, 0)"
| "DecodeRuneInString (c0 # s) =
     (let s0 = (of_char c0 :: int) in
      if s0 < 0x80 then (s0, 1)
      else if s0 < 0xC2 \<or> 0xF4 < s0 then (RuneError, 1)
      else if s0 < 0xE0 then
        (case s of
           c1 # _ \<Rightarrow>
             if byteIn 0x80 0xBF c1
             then ((s0 - 0xC0) * 64 + (of_char c1 - 0x80), 2)
             else (RuneError, 1)
         | _ \<Rightarrow> (RuneError, 1))
      else if s0 < 0xF0 then
        (case s of
           c1 # c2 # _ \<Rightarrow>
             if byteIn (if s0 = 0xE0 then 0xA0 else 0x80) (if s0 = 0xED then 0x9F else 0xBF) c1
                \<and> byteIn 0x80 0xBF c2
             then ((s0 - 0xE0) * 4096 + (of_char c1 - 0x80) * 64 + (of_char c2 - 0x80), 3)
             else (RuneError, 1)
         | _ \<Rightarrow> (RuneError, 1))
      else
        (case s of
           c1 # c2 # c3 # _ \<Rightarrow>
             if byteIn (if s0 = 0xF0 then 0x90 else 0x80) (if s0 = 0xF4 then 0x8F else 0xBF) c1
                \<and> byteIn 0x80 0xBF c2 \<and> byteIn 0x80 0xBF c3
             then ((s0 - 0xF0) * 262144 + (of_char c1 - 0x80) * 4096
                     + (of_char c2 - 0x80) * 64 + (of_char c3 - 0x80), 4)
             else (RuneError, 1)
         | _ \<Rightarrow> (RuneError, 1)))"

lemma DecodeRuneInString_width: "0 < snd (DecodeRuneInString (c # s))"
  by (simp add: Let_def split: list.splits)

text \<open>The runes of a string, as \<open>for _, r := range s\<close> visits them.\<close>

function runes :: "string \<Rightarrow> int list" where
  "runes [] = []"
| "runes (c # s) =
     fst (DecodeRuneInString (c # s)) # runes (drop (snd (DecodeRuneInString (c # s))) (c # s))"
  by pat_completeness auto
termination
proof (relation "measure length")
  show "wf (measure length)" by simp
next
  fix c :: char and s :: string
  from DecodeRuneInString_width [of c s]
  show "(drop (snd (DecodeRuneInString (c # s))) (c # s), c # s) \<in> measure length"
    by simp
qed

declare runes.simps [simp del]

definition RuneCountInString :: "string \<Rightarrow> nat" where
  "RuneCountInString s = length (runes s)"

text \<open>\<open>unicode.IsSpace\<close>: the code points with the property White_Space.\<close>

definition IsSpace :: "int \<Rightarrow> bool" where
  "IsSpace r =
     ((0x09 \<le> r \<and> r \<le> 0x0D) \<or> r = 0x20 \<or> r = 0x85 \<or> r = 0xA0 \<or> r = 0x1680
      \<or> (0x2000 \<le> r \<and> r \<le> 0x200A) \<or> r = 0x2028 \<or> r = 0x2029 \<or> r = 0x202F
      \<or> r = 0x205F \<or> r = 0x3000)"

section \<open>Value renderer\<close>

definition shouldPrintPropertyValue :: "PropertyValue \<Rightarrow> bool \<Rightarrow> bool" where
  "shouldPrintPropertyValue v outs =
     (if (case v of PNull \<Rightarrow> True | _ \<Rightarrow> False) then False
      else if (case v of PString s \<Rightarrow> s = [] | _ \<Rightarrow> False) then False
      else if (case v of PArray arr \<Rightarrow> length arr = 0 | _ \<Rightarrow> False) then False
      else if (case v of PObject obj \<Rightarrow> length obj = 0 | _ \<Rightarrow> False) then False
      else if (case v of PObject obj \<Rightarrow> length obj = 0 | _ \<Rightarrow> False) then False
      else if (case v of POutput e \<Rightarrow> \<not> outs | _ \<Rightarrow> False) then False
      else True)"

text \<open>\<open>%-Ns\<close>: the name, padded on the right with spaces to \<open>align\<close> runes.\<close>

definition padRight :: "nat \<Rightarrow> string \<Rightarrow> string" where
  "padRight align name = name @ replicate (align - RuneCountInString name) (CHR '' '')"

definition printPropertyTitle :: "string \<Rightarrow> nat \<Rightarrow> int \<Rightarrow> StepOp \<Rightarrow> bool \<Rightarrow> result" where
  "printPropertyTitle name align indent op prefix =
     writeWithIndent indent op prefix (padRight align name @ '': '')"

text \<open>
  An \<open>interface{}\<close> element of an archive is \<open>None\<close> when it is nil (a name that the map
  does not hold); \<open>contract.Failf\<close> answers that.
\<close>

fun assetOrArchiveToPropertyValue :: "AssetOrArchive option \<Rightarrow> failure + PropertyValue" where
  "assetOrArchiveToPropertyValue (Some (IsAsset t)) = Inr (PAsset t)"
| "assetOrArchiveToPropertyValue (Some (IsArchive t)) = Inr (PArchive t)"
| "assetOrArchiveToPropertyValue None = Inl AssertFailed"

text \<open>
  The renderers recurse through the elements of arrays, objects and archives; the weights
  below count constructors along those paths and bound the recursion.
\<close>

fun aoaWeight :: "Archive \<Rightarrow> nat" and eWeight :: "AssetOrArchive \<Rightarrow> nat" where
  "aoaWeight (FileArchive p h) = 1"
| "aoaWeight (URIArchive p h) = 1"
| "aoaWeight (AssetsArchive es h) = Suc (sum_list (map (\<lambda>e. eWeight (snd e)) es))"
| "eWeight (IsAsset a) = 1"
| "eWeight (IsArchive a) = Suc (aoaWeight a)"

fun pvWeight :: "PropertyValue \<Rightarrow> nat" where
  "pvWeight (PArray xs) = Suc (sum_list (map pvWeight xs))"
| "pvWeight (PObject kvs) = Suc (sum_list (map (\<lambda>kv. pvWeight (snd kv)) kvs))"
| "pvWeight (PArchive a) = Suc (aoaWeight a)"
| "pvWeight v = 1"

lemma map_of_weight_le:
  "map_of xs k = Some v \<Longrightarrow> (f v :: nat) \<le> sum_list (map (\<lambda>kv. f (snd kv)) xs)"
  by (induction xs) (auto split: if_splits)

function printPropertyValue ::
    "externals \<Rightarrow> PropertyValue \<Rightarrow> bool \<Rightarrow> int \<Rightarrow> StepOp \<Rightarrow> bool \<Rightarrow> bool \<Rightarrow> result"
  and printObject ::
    "externals \<Rightarrow> PropertyMap \<Rightarrow> bool \<Rightarrow> int \<Rightarrow> StepOp \<Rightarrow> bool \<Rightarrow> bool \<Rightarrow> result"
  and printAssetOrArchive ::
    "externals \<Rightarrow> AssetOrArchive option \<Rightarrow> string \<Rightarrow> bool \<Rightarrow> int \<Rightarrow> StepOp \<Rightarrow> bool \<Rightarrow> bool
      \<Rightarrow> result"
where
  "printPropertyValue ex v planning indent op prefix debug =
     thenE
       (case v of
          PNull \<Rightarrow> writeVerbatim op ''<null>''
        | PBool b \<Rightarrow> writeFmt op (if b then ''true'' else ''false'')
        | PNumber n \<Rightarrow> writeFmt op (fmtNumber ex n)
        | PString s \<Rightarrow> writeFmt op (fmtQuote ex s)
        | PArray arr \<Rightarrow>
            if length arr = 0 then writeVerbatim op ''[]''
            else
              thenE (writeVerbatim op (''['' @ NL))
             (thenE (seqAll (map (\<lambda>(i, elem).
                        thenE (writeWithIndent indent op prefix
                                 (''    ['' @ Itoa (int i) @ '']: ''))
                              (printPropertyValue ex elem planning (indent + 1) op prefix debug))
                      (enumerate 0 arr)))
                    (writeWithIndentNoPrefix indent op '']''))
        | PAsset a \<Rightarrow>
            if AssetIsText a then
              thenE (writeFmt op (''asset(text:'' @ shortHash (AssetHash a) @ '') {'' @ NL))
             (thenE (seqAll (map (\<lambda>line. writeWithIndentNoPrefix indent op (''    '' @ line @ NL))
                      (splitLines (AssetText (MassageIfUserProgramCodeAsset ex a debug)))))
                    (writeWithIndentNoPrefix indent op ''}''))
            else
              (case AssetGetPath a of
                 Some path \<Rightarrow>
                   writeFmt op (''asset(file:'' @ shortHash (AssetHash a) @ '') { '' @ path @ '' }'')
               | None \<Rightarrow>
                   (case AssetGetURI a of
                      None \<Rightarrow> Inl AssertFailed
                    | Some uri \<Rightarrow>
                        writeFmt op (''asset(uri:'' @ shortHash (AssetHash a) @ '') { '' @ uri @ '' }'')))
        | PArchive a \<Rightarrow>
            (case ArchiveGetAssets a of
               Some assets \<Rightarrow>
                 thenE (writeFmt op (''archive(assets:'' @ shortHash (ArchiveHash a) @ '') {'' @ NL))
                (thenE (seqAll (map (\<lambda>name.
                           printAssetOrArchive ex (map_of assets name) name planning indent op
                             prefix debug)
                         (sortedNames assets)))
                       (writeWithIndentNoPrefix indent op ''}''))
             | None \<Rightarrow>
                 (case ArchiveGetPath a of
                    Some path \<Rightarrow>
                      writeFmt op
                        (''archive(file:'' @ shortHash (ArchiveHash a) @ '') { '' @ path @ '' }'')
                  | None \<Rightarrow>
                      (case ArchiveGetURI a of
                         None \<Rightarrow> Inl AssertFailed
                       | Some uri \<Rightarrow>
                           writeFmt op
                             (''archive(uri:'' @ shortHash (ArchiveHash a) @ '') { '' @ uri @ '' }''))))
        | PComputed e \<Rightarrow>
            if planning then writeVerbatim op (TypeString ex v) else writeFmt op ''undefined''
        | POutput e \<Rightarrow>
            if planning then writeVerbatim op (TypeString ex v) else writeFmt op ''undefined''
        | PObject obj \<Rightarrow>
            if length obj = 0 then writeVerbatim op ''{}''
            else
              thenE (writeVerbatim op (''{'' @ NL))
             (thenE (printObject ex obj planning (indent + 1) op prefix debug)
                    (writeWithIndentNoPrefix indent op ''}'')))
       (writeVerbatim op NL)"
| "printObject ex props planning indent op prefix debug =
     (let keys = sortedNames props; maxkey = maxKey keys in
      seqAll (map (\<lambda>k.
        (case map_of props k of
           None \<Rightarrow> Inr []
         | Some v \<Rightarrow>
             if shouldPrintPropertyValue v planning then
               thenE (printPropertyTitle k maxkey indent op prefix)
                     (printPropertyValue ex v planning indent op prefix debug)
             else Inr [])) keys))"
| "printAssetOrArchive ex v name planning indent op prefix debug =
     thenE (writeWithIndent indent op prefix (''    '' @ DQ @ name @ DQ @ '': ''))
       (case assetOrArchiveToPropertyValue v of
          Inl e \<Rightarrow> Inl e
        | Inr pv \<Rightarrow> printPropertyValue ex pv planning (indent + 1) op prefix debug)"
  by pat_completeness auto
termination
proof (relation "measure (\<lambda>x. case x of
      Inl (ex, v, r) \<Rightarrow> 2 * pvWeight v
    | Inr (Inl (ex, props, r)) \<Rightarrow> 2 * sum_list (map (\<lambda>kv. pvWeight (snd kv)) props) + 1
    | Inr (Inr (ex, v, r)) \<Rightarrow> (case v of None \<Rightarrow> 0 | Some e \<Rightarrow> 2 * eWeight e + 1))",
    goal_cases)
  case 1
  show ?case by simp
next
  case (2 ex v planning indent op prefix debug arr x i elem)
  then have "elem \<in> set arr"
    by (auto simp: in_set_enumerate_eq)
  then have "pvWeight elem \<le> sum_list (map pvWeight arr)"
    by (simp add: member_le_sum_list)
  with 2 show ?case by simp
next
  case 3
  then show ?case by simp
next
  case (4 ex v planning indent op prefix debug a assets name)
  then show ?case
    by (cases a) (auto split: option.splits dest: map_of_weight_le [where f = eWeight])
next
  case (5 ex props planning indent op prefix debug keys maxkey k v)
  then show ?case
    using map_of_weight_le [where f = pvWeight, of props k v] by simp
next
  case (6 ex v name planning indent op prefix debug pv)
  then show ?case
    by (cases v rule: assetOrArchiveToPropertyValue.cases) auto
qed

declare printPropertyValue.simps [simp del] printObject.simps [simp del]
  printAssetOrArchive.simps [simp del]

definition printDelete ::
    "externals \<Rightarrow> PropertyValue \<Rightarrow> (StepOp \<Rightarrow> bool \<Rightarrow> result) \<Rightarrow> bool \<Rightarrow> int \<Rightarrow> bool \<Rightarrow> result" where
  "printDelete ex v title planning indent debug =
     thenE (title OpDelete True) (printPropertyValue ex v planning indent OpDelete True debug)"

definition printAdd ::
    "externals \<Rightarrow> PropertyValue \<Rightarrow> (StepOp \<Rightarrow> bool \<Rightarrow> result) \<Rightarrow> bool \<Rightarrow> int \<Rightarrow> bool \<Rightarrow> result" where
  "printAdd ex v title planning indent debug =
     thenE (title OpCreate True) (printPropertyValue ex v planning indent OpCreate True debug)"

section \<open>Text content differ\<close>

text \<open>
  \<open>strings.TrimSpace(line) == ""\<close>: trimming leaves nothing exactly when every rune of
  the line is white space (a byte that is not part of a well-formed encoding is the rune
  \<open>RuneError\<close>, which is not white space, and stops the trimming).
\<close>

definition isBlank :: "string \<Rightarrow> bool" where
  "isBlank line = list_all IsSpace (runes line)"

definition contextLines :: nat where
  "contextLines = 2"

definition writeDiff :: "int \<Rightarrow> StepOp \<Rightarrow> string \<Rightarrow> result" where
  "writeDiff indent op text =
     (let prefix = (op = OpCreate \<or> op = OpDelete) in
      writeWithIndent indent op prefix text)"

text \<open>
  The closure \<open>printLines\<close> reads the variable \<open>lines\<close> of the enclosing loop body at
  the time it is called, so it is given the lines as an argument.  The newline after a
  line is a bare \<open>WriteString\<close>.
\<close>

definition printLines :: "int \<Rightarrow> string list \<Rightarrow> StepOp \<Rightarrow> nat \<Rightarrow> nat \<Rightarrow> result" where
  "printLines indent lines op startInclusive endExclusive =
     seqAll (map (\<lambda>i.
        if \<not> i < length lines then Inl IndexOutOfRange
        else if \<not> isBlank (lines ! i) then thenE (writeDiff indent op (lines ! i)) (Inr [Plain NL])
        else Inr [])
      [startInclusive..<endExclusive])"

text \<open>
  The body of the loop of \<open>diffToPrettyString\<close>, for the run \<open>diff\<close> at position
  \<open>index\<close> of \<open>len_diffs\<close> runs; each \<open>continue\<close> ends a branch.
\<close>

definition diffRun :: "int \<Rightarrow> nat \<Rightarrow> nat \<Rightarrow> Diff \<Rightarrow> result" where
  "diffRun indent len_diffs index diff =
     (let lines = splitLines (Text diff) in
      case Type diff of
        DiffInsert \<Rightarrow> printLines indent lines OpCreate 0 (length lines)
      | DiffDelete \<Rightarrow> printLines indent lines OpDelete 0 (length lines)
      | DiffEqual \<Rightarrow>
          (let lines = filter (\<lambda>line. \<not> isBlank line) lines in
           if index = 0 then
             (if length lines > contextLines + 1 then
                thenE (writeDiff indent OpSame (''...'' @ NL))
                      (printLines indent lines OpSame (length lines - contextLines) (length lines))
              else printLines indent lines OpSame 0 (length lines))
           else if int index = int len_diffs - 1 then
             (if length lines > contextLines + 1 then
                thenE (printLines indent lines OpSame 0 contextLines)
                      (writeDiff indent OpSame (''...'' @ NL))
              else printLines indent lines OpSame 0 (length lines))
           else
             (if length lines > 2 * contextLines + 1 then
                thenE (printLines indent lines OpSame 0 contextLines)
               (thenE (writeDiff indent OpSame (''...'' @ NL))
                      (printLines indent lines OpSame (length lines - contextLines) (length lines)))
              else printLines indent lines OpSame 0 (length lines))))"

text \<open>
  \<open>diffToPrettyString\<close> returns its own buffer as a string, which the caller writes to
  the outer buffer: the same sequence of writes, spliced in.
\<close>

definition diffToPrettyString :: "Diff list \<Rightarrow> int \<Rightarrow> result" where
  "diffToPrettyString diffs indent =
     seqAll (map (\<lambda>(index, diff). diffRun indent (length diffs) index diff) (enumerate 0 diffs))"

section \<open>Asset and archive structural differ\<close>

definition makeAssetHeader :: "Asset \<Rightarrow> string" where
  "makeAssetHeader asset =
     (let (assetType, contents) =
        (case AssetGetPath asset of
           Some path \<Rightarrow> (''file'', path)
         | None \<Rightarrow>
             (case AssetGetURI asset of
                Some uri \<Rightarrow> (''uri'', uri)
              | None \<Rightarrow> (''text'', ''...'')))
      in ''asset('' @ assetType @ '':'' @ shortHash (AssetHash asset) @ '') { '' @ contents @ '' }'' @ NL)"

text \<open>Evaluating an argument that may panic before the call that takes it.\<close>

definition withValue :: "failure + PropertyValue \<Rightarrow> (PropertyValue \<Rightarrow> result) \<Rightarrow> result" where
  "withValue r f = (case r of Inl e \<Rightarrow> Inl e | Inr v \<Rightarrow> f v)"

definition printAssetDiff ::
    "externals \<Rightarrow> (StepOp \<Rightarrow> bool \<Rightarrow> result) \<Rightarrow> Asset \<Rightarrow> Asset \<Rightarrow> bool \<Rightarrow> int \<Rightarrow> bool \<Rightarrow> bool \<Rightarrow> result" where
  "printAssetDiff ex titleFunc oldAsset newAsset planning indent summary debug =
     (if AssetHash oldAsset = AssetHash newAsset then
        (if \<not> summary then
           thenE (titleFunc OpSame False)
                 (writeFmt OpSame (fmtNoOperands ex (makeAssetHeader oldAsset)))
         else Inr [])
      else
        (let op = OpUpdate;
             hashChange = getTextChangeString (shortHash (AssetHash oldAsset))
                            (shortHash (AssetHash newAsset));
             typeChanged =
               thenE (withValue (assetOrArchiveToPropertyValue (Some (IsAsset oldAsset)))
                        (\<lambda>v. printDelete ex v titleFunc planning indent debug))
                     (withValue (assetOrArchiveToPropertyValue (Some (IsAsset newAsset)))
                        (\<lambda>v. printAdd ex v titleFunc planning indent debug))
         in
         if AssetIsText oldAsset then
           (if AssetIsText newAsset then
              thenE (titleFunc OpUpdate True)
             (thenE (writeFmt op (''asset(text:'' @ hashChange @ '') {'' @ NL))
             (thenE (diffToPrettyString
                       (DiffLines ex
                          (AssetText (MassageIfUserProgramCodeAsset ex oldAsset debug))
                          (AssetText (MassageIfUserProgramCodeAsset ex newAsset debug)))
                       (indent + 1))
                    (writeWithIndentNoPrefix indent op (''}'' @ NL))))
            else typeChanged)
         else
           (case AssetGetPath oldAsset of
              Some oldPath \<Rightarrow>
                (case AssetGetPath newAsset of
                   Some newPath \<Rightarrow>
                     thenE (titleFunc OpUpdate True)
                           (writeFmt op (''asset(file:'' @ hashChange @ '') { ''
                              @ getTextChangeString oldPath newPath @ '' }'' @ NL))
                 | None \<Rightarrow> typeChanged)
            | None \<Rightarrow>
                (case AssetGetURI oldAsset of
                   None \<Rightarrow> Inl AssertFailed
                 | Some oldURI \<Rightarrow>
                     (case AssetGetURI newAsset of
                        Some newURI \<Rightarrow>
                          thenE (titleFunc OpUpdate True)
                                (writeFmt op (''asset(uri:'' @ hashChange @ '') { ''
                                   @ getTextChangeString oldURI newURI @ '' }'' @ NL))
                      | None \<Rightarrow> typeChanged)))))"

text \<open>
  \<open>printAssetsDiffFrom\<close> is the merge loop of \<open>printAssetsDiff\<close>: its last two
  arguments are \<open>oldNames[i:]\<close> and \<open>newNames[j:]\<close>.  A name the map does not hold
  reads as a nil interface: the type switch then matches no case, a type assertion
  panics and \<open>assetOrArchiveToPropertyValue\<close> fails.
\<close>

function printArchiveDiff ::
    "externals \<Rightarrow> (StepOp \<Rightarrow> bool \<Rightarrow> result) \<Rightarrow> Archive \<Rightarrow> Archive \<Rightarrow> bool \<Rightarrow> int \<Rightarrow> bool \<Rightarrow> bool \<Rightarrow> result"
  and printAssetsDiff ::
    "externals \<Rightarrow> (string \<times> AssetOrArchive) list \<Rightarrow> (string \<times> AssetOrArchive) list \<Rightarrow> bool \<Rightarrow> int \<Rightarrow> bool \<Rightarrow> bool \<Rightarrow> result"
  and printAssetsDiffFrom ::
    "externals \<Rightarrow> (string \<times> AssetOrArchive) list \<Rightarrow> (string \<times> AssetOrArchive) list \<Rightarrow> nat \<Rightarrow> bool \<Rightarrow> int \<Rightarrow> bool \<Rightarrow> bool
      \<Rightarrow> string list \<Rightarrow> string list \<Rightarrow> result"
where
  "printArchiveDiff ex titleFunc oldArchive newArchive planning indent summary debug =
     (let op = OpUpdate;
          hashChange = getTextChangeString (shortHash (ArchiveHash oldArchive))
                         (shortHash (ArchiveHash newArchive));
          typeChanged =
            thenE (withValue (assetOrArchiveToPropertyValue (Some (IsArchive oldArchive)))
                     (\<lambda>v. printDelete ex v titleFunc planning indent debug))
                  (withValue (assetOrArchiveToPropertyValue (Some (IsArchive newArchive)))
                     (\<lambda>v. printAdd ex v titleFunc planning indent debug))
      in
      case ArchiveGetPath oldArchive of
        Some oldPath \<Rightarrow>
          (case ArchiveGetPath newArchive of
             Some newPath \<Rightarrow>
               thenE (titleFunc op True)
                     (writeFmt op (''archive(file:'' @ hashChange @ '') { ''
                        @ getTextChangeString oldPath newPath @ '' }'' @ NL))
           | None \<Rightarrow> typeChanged)
      | None \<Rightarrow>
          (case ArchiveGetURI oldArchive of
             Some oldURI \<Rightarrow>
               (case ArchiveGetURI newArchive of
                  Some newURI \<Rightarrow>
                    thenE (titleFunc op True)
                          (writeFmt op (''archive(uri:'' @ hashChange @ '') { ''
                             @ getTextChangeString oldURI newURI @ '' }'' @ NL))
                | None \<Rightarrow> typeChanged)
           | None \<Rightarrow>
               (case ArchiveGetAssets oldArchive of
                  None \<Rightarrow> Inl AssertFailed
                | Some oldAssets \<Rightarrow>
                    (case ArchiveGetAssets newArchive of
                       Some newAssets \<Rightarrow>
                         thenE (titleFunc op True)
                        (thenE (writeFmt op (''archive(assets:'' @ hashChange @ '') {'' @ NL))
                        (thenE (printAssetsDiff ex oldAssets newAssets planning (indent + 1)
                                  summary debug)
                               (writeWithIndentNoPrefix indent OpUpdate (''}'' @ NL))))
                     | None \<Rightarrow> typeChanged))))"
| "printAssetsDiff ex oldAssets newAssets planning indent summary debug =
     (let oldNames = sortedNames oldAssets;
          newNames = sortedNames newAssets;
          keys = map (\<lambda>name. DQ @ name @ DQ) oldNames @ map (\<lambda>name. DQ @ name @ DQ) newNames;
          maxkey = maxKey keys
      in printAssetsDiffFrom ex oldAssets newAssets maxkey planning indent summary debug
           oldNames newNames)"
| "printAssetsDiffFrom ex oldAssets newAssets maxkey planning indent summary debug [] [] = Inr []"
| "printAssetsDiffFrom ex oldAssets newAssets maxkey planning indent summary debug
     (oldName # oldRest) [] =
     thenE (withValue (assetOrArchiveToPropertyValue (map_of oldAssets oldName))
              (\<lambda>v. printDelete ex v
                 (\<lambda>top tprefix. printPropertyTitle (DQ @ oldName @ DQ) maxkey indent top tprefix)
                 planning (indent + 1) debug))
           (printAssetsDiffFrom ex oldAssets newAssets maxkey planning indent summary debug
              oldRest [])"
| "printAssetsDiffFrom ex oldAssets newAssets maxkey planning indent summary debug
     [] (newName # newRest) =
     thenE (withValue (assetOrArchiveToPropertyValue (map_of newAssets newName))
              (\<lambda>v. printAdd ex v
                 (\<lambda>top tprefix. printPropertyTitle (DQ @ newName @ DQ) maxkey indent top tprefix)
                 planning (indent + 1) debug))
           (printAssetsDiffFrom ex oldAssets newAssets maxkey planning indent summary debug
              [] newRest)"
| "printAssetsDiffFrom ex oldAssets newAssets maxkey planning indent summary debug
     (oldName # oldRest) (newName # newRest) =
     (if oldName = newName then
        thenE
          (let titleFunc =
                 (\<lambda>top tprefix. printPropertyTitle (DQ @ oldName @ DQ) maxkey indent top tprefix)
           in
           case map_of oldAssets oldName of
             Some (IsArchive t) \<Rightarrow>
               (case map_of newAssets newName of
                  Some (IsArchive t') \<Rightarrow>
                    printArchiveDiff ex titleFunc t t' planning indent summary debug
                | _ \<Rightarrow> Inl TypeAssertionFailed)
           | Some (IsAsset t) \<Rightarrow>
               (case map_of newAssets newName of
                  Some (IsAsset t') \<Rightarrow>
                    printAssetDiff ex titleFunc t t' planning indent summary debug
                | _ \<Rightarrow> Inl TypeAssertionFailed)
           | None \<Rightarrow> Inr [])
          (printAssetsDiffFrom ex oldAssets newAssets maxkey planning indent summary debug
             oldRest newRest)
      else if oldName < newName then
        thenE (withValue (assetOrArchiveToPropertyValue (map_of oldAssets oldName))
                 (\<lambda>v. printDelete ex v
                    (\<lambda>top tprefix. printPropertyTitle (DQ @ oldName @ DQ) maxkey indent top tprefix)
                    planning (indent + 1) debug))
              (printAssetsDiffFrom ex oldAssets newAssets maxkey planning indent summary debug
                 oldRest (newName # newRest))
      else
        thenE (withValue (assetOrArchiveToPropertyValue (map_of newAssets newName))
                 (\<lambda>v. printAdd ex v
                    (\<lambda>top tprefix. printPropertyTitle (DQ @ newName @ DQ) maxkey indent top tprefix)
                    planning (indent + 1) debug))
              (printAssetsDiffFrom ex oldAssets newAssets maxkey planning indent summary debug
                 (oldName # oldRest) newRest))"
  by pat_completeness auto
termination
proof (relation "inv_image (less_than <*lex*> less_than) (\<lambda>x. case x of
      Inl (ex, t, old, r) \<Rightarrow> (aoaWeight old, 0)
    | Inr (Inl (ex, olds, news, r)) \<Rightarrow>
        (sum_list (map (\<lambda>e. eWeight (snd e)) olds),
         Suc (length (sortedNames olds) + length (sortedNames news)))
    | Inr (Inr (ex, olds, news, mk, pl, ind, su, de, os, ns)) \<Rightarrow>
        (sum_list (map (\<lambda>e. eWeight (snd e)) olds), length os + length ns))", goal_cases)
  case 1
  show ?case by (intro wf_inv_image wf_lex_prod wf_less_than)
next
  case (2 ex titleFunc oldArchive newArchive planning indent summary debug op hashChange
      typeChanged oldAssets newAssets)
  then show ?case by (cases oldArchive) auto
next
  case 3
  then show ?case by simp
next
  case 4
  then show ?case by simp
next
  case 5
  then show ?case by simp
next
  case (6 ex oldAssets newAssets maxkey planning indent summary debug oldName oldRest newName
      newRest titleFunc e t e' t')
  then show ?case
    using map_of_weight_le [where f = eWeight, of oldAssets oldName "IsArchive t"] by simp
next
  case 7
  then show ?case by simp
next
  case 8
  then show ?case by simp
next
  case 9
  then show ?case by simp
qed

declare printArchiveDiff.simps [simp del] printAssetsDiff.simps [simp del]
  printAssetsDiffFrom.simps [simp del]

section \<open>Diff tree renderer\<close>

text \<open>
  Modelled from the spec: \<open>ObjectDiff.Keys\<close> is defined in package \<open>resource\<close>; the
  spec has the renderer visit the lexicographically sorted union of the keys of the four
  maps.
\<close>

definition ObjectDiffKeys :: "ObjectDiff \<Rightarrow> string list" where
  "ObjectDiffKeys diff =
     sort (remdups (map fst (Adds diff) @ map fst (Deletes diff) @ map fst (Updates diff)
       @ map fst (Sames diff)))"

text \<open>Reading a Go map at a key it does not hold gives the zero \<open>PropertyValue\<close>, null.\<close>

definition valueOrNull :: "PropertyValue option \<Rightarrow> PropertyValue" where
  "valueOrNull r = (case r of None \<Rightarrow> PNull | Some v \<Rightarrow> v)"

fun IsArchiveValue :: "PropertyValue \<Rightarrow> bool" where
  "IsArchiveValue (PArchive a) = True"
| "IsArchiveValue v = False"

fun ArchiveValue :: "PropertyValue \<Rightarrow> failure + Archive" where
  "ArchiveValue (PArchive a) = Inr a"
| "ArchiveValue v = Inl TypeAssertionFailed"

lemma map_of_size_less:
  "map_of xs k = Some v \<Longrightarrow> size v < Suc (size_list (size_prod (\<lambda>x. 0) size) xs)"
  by (induction xs) (auto split: if_splits)

lemma Updates_size_less: "map_of (Updates diff) k = Some u \<Longrightarrow> size u < size diff"
  using map_of_size_less [of "Updates diff" k u] by (cases diff) simp

lemma ArrUpdates_size_less:
  "map_of (ArrUpdates a) i = Some u \<Longrightarrow> Array diff = Some a \<Longrightarrow> size u < size diff"
  using map_of_size_less [of "ArrUpdates a" i u] by (cases diff; cases a) simp

lemma Object_size_less: "Object diff = Some od \<Longrightarrow> size od < size diff"
  by (cases diff) simp

text \<open>
  \<open>printObjectDiffKeys\<close> is the loop of \<open>printObjectDiff\<close> over the keys that remain;
  \<open>causedReplace\<close> is a variable of the function that the loop assigns, so the loop
  carries it.  \<open>replaceMap\<close> is nil exactly when \<open>replaces\<close> is empty, and holds
  exactly the keys of \<open>replaces\<close> otherwise.
\<close>

function printObjectDiff ::
    "externals \<Rightarrow> ObjectDiff \<Rightarrow> string list \<Rightarrow> bool \<Rightarrow> bool \<Rightarrow> int \<Rightarrow> bool \<Rightarrow> bool \<Rightarrow> result"
  and printObjectDiffKeys ::
    "externals \<Rightarrow> ObjectDiff \<Rightarrow> string list \<Rightarrow> nat \<Rightarrow> bool \<Rightarrow> bool \<Rightarrow> int \<Rightarrow> bool \<Rightarrow> bool
      \<Rightarrow> string list \<Rightarrow> result"
  and printPropertyValueDiff ::
    "externals \<Rightarrow> (StepOp \<Rightarrow> bool \<Rightarrow> result) \<Rightarrow> ValueDiff \<Rightarrow> bool \<Rightarrow> bool \<Rightarrow> int \<Rightarrow> bool \<Rightarrow> bool
      \<Rightarrow> result"
where
  "printObjectDiff ex diff replaces causedReplace planning indent summary debug =
     (if \<not> indent > 0 then Inl AssertFailed
      else
        (let keys = ObjectDiffKeys diff;
             maxkey = maxKey keys
         in printObjectDiffKeys ex diff replaces maxkey causedReplace planning indent summary
              debug keys))"
| "printObjectDiffKeys ex diff replaces maxkey causedReplace planning indent summary debug [] =
     Inr []"
| "printObjectDiffKeys ex diff replaces maxkey causedReplace planning indent summary debug
     (k # keys) =
     (let titleFunc = (\<lambda>top prefix. printPropertyTitle k maxkey indent top prefix) in
      case map_of (Adds diff) k of
        Some add \<Rightarrow>
          thenE (if shouldPrintPropertyValue add planning
                 then printAdd ex add titleFunc planning indent debug else Inr [])
                (printObjectDiffKeys ex diff replaces maxkey causedReplace planning indent
                   summary debug keys)
      | None \<Rightarrow>
          (case map_of (Deletes diff) k of
             Some delete \<Rightarrow>
               thenE (if shouldPrintPropertyValue delete planning
                      then printDelete ex delete titleFunc planning indent debug else Inr [])
                     (printObjectDiffKeys ex diff replaces maxkey causedReplace planning indent
                        summary debug keys)
           | None \<Rightarrow>
               (case map_of (Updates diff) k of
                  Some update \<Rightarrow>
                    (let causedReplace' =
                           (if \<not> causedReplace \<and> replaces \<noteq> [] then k \<in> set replaces
                            else causedReplace)
                     in
                     thenE (printPropertyValueDiff ex titleFunc update causedReplace' planning
                              indent summary debug)
                           (printObjectDiffKeys ex diff replaces maxkey causedReplace' planning
                              indent summary debug keys))
                | None \<Rightarrow>
                    (let same = valueOrNull (map_of (Sames diff) k) in
                     thenE (if \<not> summary \<and> shouldPrintPropertyValue same planning then
                              thenE (titleFunc OpSame False)
                                    (printPropertyValue ex same planning indent OpSame False debug)
                            else Inr [])
                           (printObjectDiffKeys ex diff replaces maxkey causedReplace planning
                              indent summary debug keys)))))"
| "printPropertyValueDiff ex titleFunc diff causedReplace planning indent summary debug =
     (let op = OpUpdate in
      if \<not> indent > 0 then Inl AssertFailed
      else
        (case Array diff of
           Some a \<Rightarrow>
             thenE (titleFunc op True)
            (thenE (writeVerbatim op (''['' @ NL))
            (thenE (seqAll (map (\<lambda>i.
                      (let elemTitleFunc =
                             (\<lambda>eop eprefix.
                                writeWithIndent (indent + 1) eop eprefix (''['' @ Itoa i @ '']: ''))
                       in
                       case map_of (ArrAdds a) i of
                         Some add \<Rightarrow> printAdd ex add elemTitleFunc planning (indent + 2) debug
                       | None \<Rightarrow>
                           (case map_of (ArrDeletes a) i of
                              Some delete \<Rightarrow>
                                printDelete ex delete elemTitleFunc planning (indent + 2) debug
                            | None \<Rightarrow>
                                (case map_of (ArrUpdates a) i of
                                   Some update \<Rightarrow>
                                     printPropertyValueDiff ex elemTitleFunc update causedReplace
                                       planning (indent + 2) summary debug
                                 | None \<Rightarrow>
                                     if \<not> summary then
                                       thenE (elemTitleFunc OpSame False)
                                             (printPropertyValue ex
                                                (valueOrNull (map_of (ArrSames a) i)) planning
                                                (indent + 2) OpSame False debug)
                                     else Inr []))))
                    [0..Len a - 1]))
                   (writeWithIndentNoPrefix indent op ('']'' @ NL))))
         | None \<Rightarrow>
             (case Object diff of
                Some od \<Rightarrow>
                  thenE (titleFunc op True)
                 (thenE (writeVerbatim op (''{'' @ NL))
                 (thenE (printObjectDiff ex od [] causedReplace planning (indent + 1) summary
                           debug)
                        (writeWithIndentNoPrefix indent op (''}'' @ NL))))
              | None \<Rightarrow>
                  (let shouldPrintOld = shouldPrintPropertyValue (Old diff) False;
                       shouldPrintNew = shouldPrintPropertyValue (New diff) False
                   in
                   if IsArchiveValue (Old diff) \<and> IsArchiveValue (New diff) \<and> \<not> causedReplace
                      \<and> shouldPrintOld \<and> shouldPrintNew then
                     (case ArchiveValue (Old diff) of
                        Inl e \<Rightarrow> Inl e
                      | Inr oldArchive \<Rightarrow>
                          (case ArchiveValue (New diff) of
                             Inl e \<Rightarrow> Inl e
                           | Inr newArchive \<Rightarrow>
                               printArchiveDiff ex titleFunc oldArchive newArchive planning indent
                                 summary debug))
                   else
                     thenE (if shouldPrintOld
                            then printDelete ex (Old diff) titleFunc planning indent debug
                            else Inr [])
                           (if shouldPrintNew
                            then printAdd ex (New diff) titleFunc planning indent debug
                            else Inr [])))))"
  by pat_completeness auto
termination
proof (relation "inv_image (less_than <*lex*> less_than) (\<lambda>x. case x of
      Inl (ex, diff, r) \<Rightarrow> (size diff, Suc (length (ObjectDiffKeys diff)))
    | Inr (Inl (ex, diff, rep, mk, cr, pl, ind, su, de, keys)) \<Rightarrow> (size diff, length keys)
    | Inr (Inr (ex, t, diff, r)) \<Rightarrow> (size diff, 0))")
  show "wf (inv_image (less_than <*lex*> less_than) (\<lambda>x. case x of
      Inl (ex, diff, r) \<Rightarrow> (size diff, Suc (length (ObjectDiffKeys diff)))
    | Inr (Inl (ex, diff, rep, mk, cr, pl, ind, su, de, keys)) \<Rightarrow> (size diff, length keys)
    | Inr (Inr (ex, t, diff, r)) \<Rightarrow> (size diff, 0)))"
    by (intro wf_inv_image wf_lex_prod wf_less_than)
qed (auto dest: Updates_size_less ArrUpdates_size_less Object_size_less)

declare printObjectDiff.simps [simp del] printObjectDiffKeys.simps [simp del]
  printPropertyValueDiff.simps [simp del]

section \<open>Entry point\<close>

text \<open>
  The fields of \<open>StepEventMetadata\<close> and \<open>StepEventStateMetadata\<close> (declared in another
  file of package \<open>engine\<close>) that \<open>GetResourcePropertiesDetails\<close> reads.
  \<open>StepOld\<close> and \<open>StepNew\<close> are the pointers \<open>step.Old\<close> and \<open>step.New\<close>: \<open>None\<close> is
  nil.
\<close>

record StepEventStateMetadata =
  Inputs :: PropertyMap

record StepEventMetadata =
  Op :: StepOp
  Keys :: "string list"
  StepOld :: "StepEventStateMetadata option"
  StepNew :: "StepEventStateMetadata option"

text \<open>At the entry point a nil pointer dereference is a further way to panic.\<close>

datatype panic = NilPointerDereference | Failed failure

definition returning :: "result \<Rightarrow> panic + out" where
  "returning r = (case r of Inl e \<Rightarrow> Inl (Failed e) | Inr b \<Rightarrow> Inr b)"

definition printOldNewDiffs ::
    "externals \<Rightarrow> PropertyMap \<Rightarrow> PropertyMap \<Rightarrow> string list \<Rightarrow> bool \<Rightarrow> int \<Rightarrow> StepOp \<Rightarrow> bool \<Rightarrow> bool
      \<Rightarrow> result" where
  "printOldNewDiffs ex olds news replaces planning indent op summary debug =
     (case PropertyMapDiff ex olds news of
        Some diff \<Rightarrow> printObjectDiff ex diff replaces False planning indent summary debug
      | None \<Rightarrow> printObject ex news planning indent op True debug)"

text \<open>
  \<open>GetResourcePropertiesDetails\<close> returns the contents of its buffer.  In the last branch
  the arguments \<open>old.Inputs\<close> and \<open>new.Inputs\<close> are evaluated first, \<open>old\<close> before
  \<open>new\<close>.
\<close>

definition GetResourcePropertiesDetails ::
    "externals \<Rightarrow> StepEventMetadata \<Rightarrow> int \<Rightarrow> bool \<Rightarrow> bool \<Rightarrow> bool \<Rightarrow> panic + out" where
  "GetResourcePropertiesDetails ex step indent0 planning summary debug =
     (let indent = indent0 + 1;
          replaces = (if Op step = OpCreateReplacement \<or> Op step = OpReplace then Keys step
                      else []);
          old = StepOld step;
          new = StepNew step
      in
      if old = None \<and> new \<noteq> None then
        (case new of
           None \<Rightarrow> Inl NilPointerDereference
         | Some newState \<Rightarrow> returning (printObject ex (Inputs newState) planning indent (Op step) False debug))
      else if new = None \<and> old \<noteq> None then
        (if \<not> summary then
           (case old of
              None \<Rightarrow> Inl NilPointerDereference
            | Some oldState \<Rightarrow>
                returning (printObject ex (Inputs oldState) planning indent (Op step) False debug))
         else Inr [])
      else
        (case old of
           None \<Rightarrow> Inl NilPointerDereference
         | Some oldState \<Rightarrow>
             (case new of
                None \<Rightarrow> Inl NilPointerDereference
              | Some newState \<Rightarrow>
                  returning (printOldNewDiffs ex (Inputs oldState) (Inputs newState) replaces planning indent
                               (Op step) summary debug))))"

section \<open>Concrete inputs\<close>

text \<open>
  An instance of the external functions, for evaluating the renderers on concrete inputs:
  numbers print as \<open>0\<close>, quoting adds the quotation marks, a format with no operands
  prints as it is, source-code assets are left as they are, the line differ answers one
  deleted and one inserted run, and no two property maps differ.
\<close>

definition exampleExternals :: externals where
  "exampleExternals =
     \<lparr> fmtNumber = (\<lambda>n. ''0''),
       fmtQuote = (\<lambda>s. DQ @ s @ DQ),
       fmtNoOperands = (\<lambda>s. s),
       TypeString = (\<lambda>v. ''output<string>''),
       MassageIfUserProgramCodeAsset = (\<lambda>a debug. a),
       DiffLines = (\<lambda>old new. [Diff DiffDelete old, Diff DiffInsert new]),
       PropertyMapDiff = (\<lambda>olds news. None) \<rparr>"

section \<open>Indentation, hashes and the print filter\<close>

lemma concat_replicate_spaces:
  "concat (replicate n ''    '') = replicate (4 * n) (CHR '' '')"
proof (induction n)
  case 0
  show ?case by simp
next
  case (Suc n)
  have "replicate (4 * Suc n) (CHR '' '') = replicate 4 (CHR '' '') @ replicate (4 * n) (CHR '' '')"
    by (simp add: replicate_add [symmetric])
  also have "replicate 4 (CHR '' '') = ''    ''"
    by (simp add: numeral_eq_Suc)
  finally show ?case using Suc by simp
qed

lemma RawPrefix_length: "length (RawPrefix op) = 2"
  by (cases op) simp_all

lemma getIndentationString_eq:
  "getIndentationString indent op prefix =
     (if indent \<le> 0 then (if prefix then Inl AssertFailed else Inr [])
      else Inr (replicate (4 * nat indent - 2) (CHR '' '')
                @ (if prefix then RawPrefix op else ''  '')))"
proof (cases "indent \<le> 0")
  case True
  then show ?thesis by (simp add: getIndentationString_def)
next
  case False
  then have "0 < nat indent" by simp
  then show ?thesis
    using False
    by (simp add: getIndentationString_def Let_def concat_replicate_spaces RawPrefix_length)
qed

text \<open>
  Claim C6.  \<open>shouldPrintPropertyValue v showOutputs\<close> is false exactly when \<open>v\<close> is null,
  the empty string, the empty array, the empty object, or an output value while
  \<open>showOutputs\<close> is unset; it is true for every other value.
\<close>

theorem shouldPrintPropertyValue_false_iff:
  "shouldPrintPropertyValue v showOutputs = False \<longleftrightarrow>
     v = PNull \<or> v = PString [] \<or> v = PArray [] \<or> v = PObject []
     \<or> ((\<exists>e. v = POutput e) \<and> showOutputs = False)"
  by (cases v) (simp_all add: shouldPrintPropertyValue_def)

theorem shouldPrintPropertyValue_false_iff_witness:
  "shouldPrintPropertyValue (POutput (PString ''x'')) False = False
   \<and> shouldPrintPropertyValue (POutput (PString ''x'')) True = True
   \<and> shouldPrintPropertyValue (PObject []) True = False
   \<and> shouldPrintPropertyValue (PString ''x'') False = True"
  using shouldPrintPropertyValue_false_iff [of "POutput (PString ''x'')" False]
    shouldPrintPropertyValue_false_iff [of "POutput (PString ''x'')" True]
    shouldPrintPropertyValue_false_iff [of "PObject []" True]
    shouldPrintPropertyValue_false_iff [of "PString ''x''" False]
  by simp

text \<open>
  Claim C7, as stated, has the call fail exactly when the level is 0 and a prefix is
  wanted.  The loop of \<open>getIndentationString\<close> does not run for a negative level either,
  so the first assertion fails there too.
\<close>

theorem getIndentationString_fails_counterexample:
  "getIndentationString (- 1) OpCreate True = Inl AssertFailed \<and> (- 1 :: int) \<noteq> 0"
  by (simp add: getIndentationString_eq)

text \<open>
  Claim C7, amended.  For every level above 0 \<open>getIndentationString\<close> returns a string
  of \<open>level * 4\<close> characters: spaces, the last two replaced by the two-character glyph
  of the operation when a prefix is wanted, and spaces when not.  The glyph of every
  operation has exactly two characters.  The call fails exactly when the level is at
  most 0 and a prefix is wanted.
\<close>

theorem getIndentationString_spec:
  "(0 < level \<longrightarrow>
      (\<exists>s. getIndentationString level op wantPrefix = Inr s
         \<and> length s = nat (level * 4)
         \<and> take (length s - 2) s = replicate (nat (level * 4) - 2) (CHR '' '')
         \<and> drop (length s - 2) s = (if wantPrefix then RawPrefix op else ''  '')))
   \<and> length (RawPrefix op) = 2
   \<and> ((\<exists>e. getIndentationString level op wantPrefix = Inl e) \<longleftrightarrow> level \<le> 0 \<and> wantPrefix)"
proof (intro conjI impI)
  assume pos: "0 < level"
  let ?s = "replicate (4 * nat level - 2) (CHR '' '') @ (if wantPrefix then RawPrefix op else ''  '')"
  have len: "length ?s = nat (level * 4)"
    using pos by (simp add: RawPrefix_length nat_mult_distrib)
  have "getIndentationString level op wantPrefix = Inr ?s"
    using pos by (simp add: getIndentationString_eq)
  moreover have "take (length ?s - 2) ?s = replicate (nat (level * 4) - 2) (CHR '' '')"
    using pos by (simp add: RawPrefix_length nat_mult_distrib mult.commute)
  moreover have "drop (length ?s - 2) ?s = (if wantPrefix then RawPrefix op else ''  '')"
    using pos by (simp add: RawPrefix_length)
  ultimately show "\<exists>s. getIndentationString level op wantPrefix = Inr s
         \<and> length s = nat (level * 4)
         \<and> take (length s - 2) s = replicate (nat (level * 4) - 2) (CHR '' '')
         \<and> drop (length s - 2) s = (if wantPrefix then RawPrefix op else ''  '')"
    using len by blast
next
  show "length (RawPrefix op) = 2" by (rule RawPrefix_length)
next
  show "(\<exists>e. getIndentationString level op wantPrefix = Inl e) \<longleftrightarrow> level \<le> 0 \<and> wantPrefix"
    by (simp add: getIndentationString_eq)
qed

theorem getIndentationString_spec_witness:
  "getIndentationString 2 OpUpdate True = Inr ''      ~ ''
   \<and> getIndentationString 2 OpUpdate False = Inr ''        ''
   \<and> (\<exists>e. getIndentationString 0 OpUpdate True = Inl e)
   \<and> (\<exists>e. getIndentationString (- 3) OpUpdate True = Inl e)"
proof -
  have a: "\<exists>s. getIndentationString 2 OpUpdate True = Inr s \<and> length s = nat (2 * 4)
      \<and> take (length s - 2) s = replicate (nat (2 * 4) - 2) (CHR '' '')
      \<and> drop (length s - 2) s = (if True then RawPrefix OpUpdate else ''  '')"
    using getIndentationString_spec [of 2 OpUpdate True] by simp
  have b: "\<exists>s. getIndentationString 2 OpUpdate False = Inr s \<and> length s = nat (2 * 4)
      \<and> take (length s - 2) s = replicate (nat (2 * 4) - 2) (CHR '' '')
      \<and> drop (length s - 2) s = (if False then RawPrefix OpUpdate else ''  '')"
    using getIndentationString_spec [of 2 OpUpdate False] by simp
  have c: "\<exists>e. getIndentationString 0 OpUpdate True = Inl e"
    using getIndentationString_spec [of 0 OpUpdate True] by simp
  have d: "\<exists>e. getIndentationString (- 3) OpUpdate True = Inl e"
    using getIndentationString_spec [of "- 3" OpUpdate True] by simp
  from a obtain s where s: "getIndentationString 2 OpUpdate True = Inr s"
      "take (length s - 2) s = replicate (nat (2 * 4) - 2) (CHR '' '')"
      "drop (length s - 2) s = (if True then RawPrefix OpUpdate else ''  '')"
    by blast
  have "s = take (length s - 2) s @ drop (length s - 2) s" by simp
  also have "\<dots> = ''      ~ ''" unfolding s(2) s(3) by (simp add: numeral_eq_Suc)
  finally have a': "getIndentationString 2 OpUpdate True = Inr ''      ~ ''" using s(1) by simp
  from b obtain t where t: "getIndentationString 2 OpUpdate False = Inr t"
      "take (length t - 2) t = replicate (nat (2 * 4) - 2) (CHR '' '')"
      "drop (length t - 2) t = (if False then RawPrefix OpUpdate else ''  '')"
    by blast
  have "t = take (length t - 2) t @ drop (length t - 2) t" by simp
  also have "\<dots> = ''        ''" unfolding t(2) t(3) by (simp add: numeral_eq_Suc)
  finally have b': "getIndentationString 2 OpUpdate False = Inr ''        ''" using t(1) by simp
  show ?thesis using a' b' c d by blast
qed

text \<open>
  Claim C8.  The displayed short hash is the first 7 characters (bytes) of a hash longer
  than 7, and the whole hash otherwise, also when the hash has exactly 7 characters.
\<close>

theorem shortHash_spec:
  "(length hash > 7 \<longrightarrow> shortHash hash = take 7 hash \<and> length (shortHash hash) = 7)
   \<and> (length hash \<le> 7 \<longrightarrow> shortHash hash = hash)
   \<and> (length hash = 7 \<longrightarrow> shortHash hash = hash)"
  by (simp add: shortHash_def)

theorem shortHash_spec_witness:
  "shortHash ''0123456789abcdef'' = ''0123456'' \<and> shortHash ''0123456'' = ''0123456''
   \<and> shortHash ''abc'' = ''abc''"
  using shortHash_spec [of "''0123456789abcdef''"] shortHash_spec [of "''0123456''"]
    shortHash_spec [of "''abc''"]
  by simp

section \<open>The entry point needs a snapshot\<close>

lemma returning_not_nil: "returning r \<noteq> Inl NilPointerDereference"
  by (simp add: returning_def split: sum.splits)

text \<open>
  Claim C9.  When both the old and the new snapshot of the step are nil,
  \<open>GetResourcePropertiesDetails\<close> reaches the last branch and dereferences the nil old
  snapshot; when at least one snapshot is present, it never dereferences a nil pointer.
\<close>

theorem GetResourcePropertiesDetails_nil:
  "(StepOld step = None \<and> StepNew step = None \<longrightarrow>
      GetResourcePropertiesDetails ex step indent planning summary debug
        = Inl NilPointerDereference)
   \<and> (StepOld step \<noteq> None \<or> StepNew step \<noteq> None \<longrightarrow>
      GetResourcePropertiesDetails ex step indent planning summary debug
        \<noteq> Inl NilPointerDereference)"
  by (auto simp: GetResourcePropertiesDetails_def Let_def returning_not_nil)

theorem GetResourcePropertiesDetails_nil_witness:
  "GetResourcePropertiesDetails exampleExternals
      \<lparr> Op = OpDelete, Keys = [], StepOld = None, StepNew = None \<rparr> 0 False False False
     = Inl NilPointerDereference
   \<and> GetResourcePropertiesDetails exampleExternals
      \<lparr> Op = OpDelete, Keys = [], StepOld = Some \<lparr> Inputs = [] \<rparr>, StepNew = None \<rparr> 0 False False False
     \<noteq> Inl NilPointerDereference"
  using GetResourcePropertiesDetails_nil [of "\<lparr> Op = OpDelete, Keys = [], StepOld = None, StepNew = None \<rparr>"
      exampleExternals 0 False False False]
    GetResourcePropertiesDetails_nil [of
      "\<lparr> Op = OpDelete, Keys = [], StepOld = Some \<lparr> Inputs = [] \<rparr>, StepNew = None \<rparr>"
      exampleExternals 0 False False False]
  by simp

section \<open>Facts about the writers\<close>

lemma thenE_simps [simp]:
  "thenE (Inl e) b = Inl e"
  "thenE (Inr x) (Inl e) = Inl e"
  "thenE (Inr x) (Inr y) = Inr (x @ y)"
  by (simp_all add: thenE_def)

lemma thenE_Nil_left [simp]: "thenE (Inr []) b = b"
  by (cases b) simp_all

lemma thenE_Nil_right [simp]: "thenE a (Inr []) = a"
  by (cases a) simp_all

lemma thenE_assoc: "thenE (thenE a b) c = thenE a (thenE b c)"
  by (cases a; cases b; cases c) simp_all

lemma seqAll_append: "seqAll (xs @ ys) = thenE (seqAll xs) (seqAll ys)"
  by (induction xs) (simp_all add: thenE_assoc)

lemma writeWithIndent_eq:
  "writeWithIndent indent op prefix s =
     (if indent \<le> 0 then (if prefix then Inl AssertFailed else Inr [Styled op s])
      else Inr [Styled op (replicate (4 * nat indent - 2) (CHR '' '')
                 @ (if prefix then RawPrefix op else ''  '') @ s)])"
  by (simp add: writeWithIndent_def getIndentationString_eq)

lemma writeFmt_eq [simp]: "writeFmt op s = Inr [Styled op s]"
  by (simp add: writeFmt_def writeWithIndentNoPrefix_def writeWithIndent_eq)

lemma writeVerbatim_eq [simp]: "writeVerbatim op s = Inr [Styled op s]"
  by (simp add: writeVerbatim_def writeWithIndentNoPrefix_def writeWithIndent_eq)

section \<open>Context windowing of the text content differ\<close>

text \<open>
  The rendering policy in the words of the spec: \<open>nonBlankLines\<close> are the lines of a run
  that are not blank, \<open>emitLines\<close> emits every line of a list with the tag of an
  operation, each followed by a newline, and \<open>emitEllipsis\<close> emits the line \<open>...\<close>.
\<close>

definition emitLines :: "int \<Rightarrow> StepOp \<Rightarrow> string list \<Rightarrow> result" where
  "emitLines indent op ls = seqAll (map (\<lambda>l. thenE (writeDiff indent op l) (Inr [Plain NL])) ls)"

definition emitEllipsis :: "int \<Rightarrow> result" where
  "emitEllipsis indent = writeDiff indent OpSame (''...'' @ NL)"

definition nonBlankLines :: "Diff \<Rightarrow> string list" where
  "nonBlankLines diff = filter (\<lambda>line. \<not> isBlank line) (splitLines (Text diff))"

lemma map_nth_upt_take_drop:
  "b \<le> length ls \<Longrightarrow> map ((!) ls) [a..<b] = take (b - a) (drop a ls)"
  by (rule nth_equalityI) auto

lemma seqAll_map_filter:
  "seqAll (map (\<lambda>l. if \<not> isBlank l then thenE (writeDiff indent op l) (Inr [Plain NL]) else Inr []) ls)
     = emitLines indent op (filter (\<lambda>l. \<not> isBlank l) ls)"
  by (induction ls) (simp_all add: emitLines_def)

lemma printLines_eq:
  assumes "endExclusive \<le> length ls"
  shows "printLines indent ls op startInclusive endExclusive =
           emitLines indent op
             (filter (\<lambda>l. \<not> isBlank l) (take (endExclusive - startInclusive) (drop startInclusive ls)))"
proof -
  have "map (\<lambda>i. if \<not> i < length ls then Inl IndexOutOfRange
                  else if \<not> isBlank (ls ! i) then thenE (writeDiff indent op (ls ! i)) (Inr [Plain NL])
                  else Inr []) [startInclusive..<endExclusive]
        = map (\<lambda>i. (\<lambda>l. if \<not> isBlank l then thenE (writeDiff indent op l) (Inr [Plain NL]) else Inr [])
                      (ls ! i)) [startInclusive..<endExclusive]"
    using assms by (intro map_cong) auto
  also have "\<dots> = map (\<lambda>l. if \<not> isBlank l then thenE (writeDiff indent op l) (Inr [Plain NL]) else Inr [])
                      (map ((!) ls) [startInclusive..<endExclusive])"
    by simp
  also have "map ((!) ls) [startInclusive..<endExclusive]
               = take (endExclusive - startInclusive) (drop startInclusive ls)"
    using assms by (rule map_nth_upt_take_drop)
  finally show ?thesis
    by (simp add: printLines_def seqAll_map_filter)
qed

lemma nonBlankLines_not_blank: "list_all (\<lambda>l. \<not> isBlank l) (nonBlankLines d)"
  by (simp add: nonBlankLines_def list_all_iff)

lemma filter_nonBlankLines:
  "filter (\<lambda>l. \<not> isBlank l) (take n (drop m (nonBlankLines d))) = take n (drop m (nonBlankLines d))"
proof (rule filter_True, rule ballI)
  fix l
  assume "l \<in> set (take n (drop m (nonBlankLines d)))"
  then have "l \<in> set (nonBlankLines d)"
    by (meson in_set_dropD in_set_takeD)
  then show "\<not> isBlank l" by (simp add: nonBlankLines_def)
qed

lemma printLines_nonBlank:
  "b \<le> length (nonBlankLines d) \<Longrightarrow>
     printLines indent (nonBlankLines d) op a b = emitLines indent op (take (b - a) (drop a (nonBlankLines d)))"
  by (simp add: printLines_eq filter_nonBlankLines)

lemma printLines_nonBlank_all:
  "printLines indent (nonBlankLines d) op 0 (length (nonBlankLines d)) = emitLines indent op (nonBlankLines d)"
  by (simp add: printLines_nonBlank)

lemma diffRun_insert:
  "Type d = DiffInsert \<Longrightarrow> diffRun indent n index d = emitLines indent OpCreate (nonBlankLines d)"
  by (simp add: diffRun_def printLines_eq nonBlankLines_def)

lemma diffRun_delete:
  "Type d = DiffDelete \<Longrightarrow> diffRun indent n index d = emitLines indent OpDelete (nonBlankLines d)"
  by (simp add: diffRun_def printLines_eq nonBlankLines_def)

lemma diffRun_equal:
  "Type d = DiffEqual \<Longrightarrow> diffRun indent n index d =
     (if index = 0 then
        (if length (nonBlankLines d) > contextLines + 1 then
           thenE (emitEllipsis indent)
                 (emitLines indent OpSame (drop (length (nonBlankLines d) - contextLines) (nonBlankLines d)))
         else emitLines indent OpSame (nonBlankLines d))
      else if Suc index = n then
        (if length (nonBlankLines d) > contextLines + 1 then
           thenE (emitLines indent OpSame (take contextLines (nonBlankLines d))) (emitEllipsis indent)
         else emitLines indent OpSame (nonBlankLines d))
      else
        (if length (nonBlankLines d) > 2 * contextLines + 1 then
           thenE (emitLines indent OpSame (take contextLines (nonBlankLines d)))
          (thenE (emitEllipsis indent)
                 (emitLines indent OpSame (drop (length (nonBlankLines d) - contextLines) (nonBlankLines d))))
         else emitLines indent OpSame (nonBlankLines d)))"
proof -
  assume eq: "Type d = DiffEqual"
  have last: "(int index = int n - 1) = (Suc index = n)" by auto
  have tail: "printLines indent (nonBlankLines d) OpSame (length (nonBlankLines d) - contextLines)
                (length (nonBlankLines d))
              = emitLines indent OpSame (drop (length (nonBlankLines d) - contextLines) (nonBlankLines d))"
    by (simp add: printLines_nonBlank)
  have head: "contextLines \<le> length (nonBlankLines d) \<Longrightarrow>
              printLines indent (nonBlankLines d) OpSame 0 contextLines
              = emitLines indent OpSame (take contextLines (nonBlankLines d))"
    by (simp add: printLines_nonBlank)
  show ?thesis
    unfolding diffRun_def Let_def nonBlankLines_def [symmetric] last
    using eq by (simp add: tail head printLines_nonBlank_all emitEllipsis_def)
qed

lemma diffToPrettyString_runs:
  "diffToPrettyString diffs indent =
     seqAll (map (\<lambda>index. diffRun indent (length diffs) index (diffs ! index)) [0..<length diffs])"
proof -
  have "map (\<lambda>(index, diff). diffRun indent (length diffs) index diff) (enumerate 0 diffs)
        = map (\<lambda>index. diffRun indent (length diffs) index (diffs ! index)) [0..<length diffs]"
    by (rule nth_equalityI) (simp_all add: nth_enumerate_eq)
  then show ?thesis by (simp add: diffToPrettyString_def)
qed

lemma emitLines_explicit:
  "0 < indent \<Longrightarrow> emitLines indent op ls =
     Inr (concat (map (\<lambda>l. [Styled op (replicate (4 * nat indent - 2) (CHR '' '')
            @ (if op = OpCreate \<or> op = OpDelete then RawPrefix op else ''  '') @ l), Plain NL]) ls))"
  by (induction ls) (simp_all add: emitLines_def writeDiff_def writeWithIndent_eq)

text \<open>
  Claim C4, as stated, has every Equal run that is last and has more than three non-blank
  lines emit its first two lines and then \<open>...\<close>.  The loop tests \<open>index == 0\<close> before
  \<open>index == len(diffs)-1\<close>: a run that is first and last at once is rendered as a first
  run, \<open>...\<close> and then its last two lines.
\<close>

theorem diffToPrettyString_last_counterexample:
  "diffToPrettyString [Diff DiffEqual (''a'' @ NL @ ''b'' @ NL @ ''c'' @ NL @ ''d'' @ NL)] 1
     = Inr [Styled OpSame (''    ...'' @ NL), Styled OpSame ''    c'', Plain NL,
            Styled OpSame ''    d'', Plain NL]
   \<and> diffToPrettyString [Diff DiffEqual (''a'' @ NL @ ''b'' @ NL @ ''c'' @ NL @ ''d'' @ NL)] 1
     \<noteq> Inr [Styled OpSame ''    a'', Plain NL, Styled OpSame ''    b'', Plain NL,
            Styled OpSame (''    ...'' @ NL)]"
  by code_simp

text \<open>
  Claim C4, amended.  \<open>diffToPrettyString\<close> renders the runs in order, each by its
  position; blank and whitespace-only lines are never emitted.  With the context budget
  \<open>C = 2\<close>: an Inserted run emits every non-blank line Create-tagged and a Deleted run
  every non-blank line Delete-tagged; an Equal run that is first, with more than \<open>C + 1\<close>
  non-blank lines, emits \<open>...\<close> and then its last \<open>C\<close> non-blank lines; an Equal run that
  is last and not first, with more than \<open>C + 1\<close> non-blank lines, emits its first \<open>C\<close>
  non-blank lines and then \<open>...\<close>; an interior Equal run with more than \<open>2C + 1\<close>
  non-blank lines emits its first \<open>C\<close>, \<open>...\<close>, and its last \<open>C\<close>; every other Equal
  run emits all its non-blank lines.  For a positive indent each emitted line is one
  write tagged with the operation, followed by a newline.
\<close>

theorem diffToPrettyString_windowing:
  "diffToPrettyString diffs indent =
     seqAll (map (\<lambda>index. diffRun indent (length diffs) index (diffs ! index)) [0..<length diffs])
   \<and> list_all (\<lambda>l. \<not> isBlank l) (nonBlankLines d)
   \<and> (Type d = DiffInsert \<longrightarrow>
        diffRun indent n index d = emitLines indent OpCreate (nonBlankLines d))
   \<and> (Type d = DiffDelete \<longrightarrow>
        diffRun indent n index d = emitLines indent OpDelete (nonBlankLines d))
   \<and> (Type d = DiffEqual \<and> index = 0 \<and> length (nonBlankLines d) > contextLines + 1 \<longrightarrow>
        diffRun indent n index d =
          thenE (emitEllipsis indent)
            (emitLines indent OpSame
               (drop (length (nonBlankLines d) - contextLines) (nonBlankLines d))))
   \<and> (Type d = DiffEqual \<and> index \<noteq> 0 \<and> Suc index = n
        \<and> length (nonBlankLines d) > contextLines + 1 \<longrightarrow>
        diffRun indent n index d =
          thenE (emitLines indent OpSame (take contextLines (nonBlankLines d)))
            (emitEllipsis indent))
   \<and> (Type d = DiffEqual \<and> index \<noteq> 0 \<and> Suc index \<noteq> n
        \<and> length (nonBlankLines d) > 2 * contextLines + 1 \<longrightarrow>
        diffRun indent n index d =
          thenE (emitLines indent OpSame (take contextLines (nonBlankLines d)))
         (thenE (emitEllipsis indent)
            (emitLines indent OpSame
               (drop (length (nonBlankLines d) - contextLines) (nonBlankLines d)))))
   \<and> (Type d = DiffEqual
        \<and> ((index = 0 \<or> Suc index = n) \<and> length (nonBlankLines d) \<le> contextLines + 1
           \<or> index \<noteq> 0 \<and> Suc index \<noteq> n \<and> length (nonBlankLines d) \<le> 2 * contextLines + 1) \<longrightarrow>
        diffRun indent n index d = emitLines indent OpSame (nonBlankLines d))
   \<and> contextLines = 2
   \<and> (0 < indent \<longrightarrow>
        emitLines indent op ls =
          Inr (concat (map (\<lambda>l. [Styled op (replicate (4 * nat indent - 2) (CHR '' '')
                 @ (if op = OpCreate \<or> op = OpDelete then RawPrefix op else ''  '') @ l),
               Plain NL]) ls))
        \<and> emitEllipsis indent =
          Inr [Styled OpSame (replicate (4 * nat indent - 2) (CHR '' '') @ ''  '' @ ''...'' @ NL)])"
proof (intro conjI impI)
  show "diffToPrettyString diffs indent =
     seqAll (map (\<lambda>index. diffRun indent (length diffs) index (diffs ! index)) [0..<length diffs])"
    by (rule diffToPrettyString_runs)
  show "list_all (\<lambda>l. \<not> isBlank l) (nonBlankLines d)"
    by (rule nonBlankLines_not_blank)
  show "contextLines = 2"
    by (rule contextLines_def)
  assume "0 < indent"
  then show "emitLines indent op ls =
          Inr (concat (map (\<lambda>l. [Styled op (replicate (4 * nat indent - 2) (CHR '' '')
                 @ (if op = OpCreate \<or> op = OpDelete then RawPrefix op else ''  '') @ l),
               Plain NL]) ls))"
    by (rule emitLines_explicit)
  show "emitEllipsis indent =
          Inr [Styled OpSame (replicate (4 * nat indent - 2) (CHR '' '') @ ''  '' @ ''...'' @ NL)]"
    using \<open>0 < indent\<close> by (simp add: emitEllipsis_def writeDiff_def writeWithIndent_eq)
qed (auto simp: diffRun_insert diffRun_delete diffRun_equal)

theorem diffToPrettyString_windowing_witness:
  "diffRun 1 3 0 (Diff DiffEqual (''a'' @ NL @ ''b'' @ NL @ '' '' @ NL @ ''c'' @ NL @ ''d'' @ NL))
     = Inr [Styled OpSame (''    ...'' @ NL), Styled OpSame ''    c'', Plain NL,
            Styled OpSame ''    d'', Plain NL]
   \<and> diffRun 1 3 2 (Diff DiffEqual (''a'' @ NL @ ''b'' @ NL @ '' '' @ NL @ ''c'' @ NL @ ''d'' @ NL))
     = Inr [Styled OpSame ''    a'', Plain NL, Styled OpSame ''    b'', Plain NL,
            Styled OpSame (''    ...'' @ NL)]
   \<and> diffRun 1 3 1 (Diff DiffEqual
        (''a'' @ NL @ ''b'' @ NL @ ''c'' @ NL @ ''d'' @ NL @ ''e'' @ NL @ ''f'' @ NL))
     = Inr [Styled OpSame ''    a'', Plain NL, Styled OpSame ''    b'', Plain NL,
            Styled OpSame (''    ...'' @ NL),
            Styled OpSame ''    e'', Plain NL, Styled OpSame ''    f'', Plain NL]
   \<and> diffRun 1 3 1 (Diff DiffEqual (''a'' @ NL @ ''b'' @ NL @ '' '' @ NL @ ''c'' @ NL @ ''d'' @ NL))
     = Inr [Styled OpSame ''    a'', Plain NL, Styled OpSame ''    b'', Plain NL,
            Styled OpSame ''    c'', Plain NL, Styled OpSame ''    d'', Plain NL]
   \<and> diffRun 1 3 1 (Diff DiffInsert (''x'' @ NL @ '' '' @ NL))
     = Inr [Styled OpCreate ''  + x'', Plain NL]
   \<and> diffRun 1 3 1 (Diff DiffDelete (''y'' @ NL))
     = Inr [Styled OpDelete ''  - y'', Plain NL]
   \<and> diffRun 1 3 0 (Diff DiffEqual
        (''a'' @ NL @ [CHR 0xC2, CHR 0xA0] @ NL @ ''b'' @ NL
           @ [CHR 0xE3, CHR 0x80, CHR 0x80, CHR 0x09] @ NL @ ''c''))
     = Inr [Styled OpSame ''    a'', Plain NL, Styled OpSame ''    b'', Plain NL,
            Styled OpSame ''    c'', Plain NL]"
proof -
  note ev = nonBlankLines_def NL_def isBlank_def IsSpace_def runes.simps byteIn_def
    contextLines_def emitLines_def
    emitEllipsis_def writeDiff_def writeWithIndent_eq numeral_2_eq_2
  have 1: "diffRun 1 3 0 (Diff DiffEqual (''a'' @ NL @ ''b'' @ NL @ '' '' @ NL @ ''c'' @ NL @ ''d'' @ NL))
     = Inr [Styled OpSame (''    ...'' @ NL), Styled OpSame ''    c'', Plain NL,
            Styled OpSame ''    d'', Plain NL]"
    using diffToPrettyString_windowing [where diffs = "[]" and op = OpSame and ls = "[]" and indent = 1 and n = 3 and index = 0
        and d = "Diff DiffEqual (''a'' @ NL @ ''b'' @ NL @ '' '' @ NL @ ''c'' @ NL @ ''d'' @ NL)"]
    by (simp add: ev)
  have 2: "diffRun 1 3 2 (Diff DiffEqual (''a'' @ NL @ ''b'' @ NL @ '' '' @ NL @ ''c'' @ NL @ ''d'' @ NL))
     = Inr [Styled OpSame ''    a'', Plain NL, Styled OpSame ''    b'', Plain NL,
            Styled OpSame (''    ...'' @ NL)]"
    using diffToPrettyString_windowing [where diffs = "[]" and op = OpSame and ls = "[]" and indent = 1 and n = 3 and index = 2
        and d = "Diff DiffEqual (''a'' @ NL @ ''b'' @ NL @ '' '' @ NL @ ''c'' @ NL @ ''d'' @ NL)"]
    by (simp add: ev)
  have 3: "diffRun 1 3 1 (Diff DiffEqual
        (''a'' @ NL @ ''b'' @ NL @ ''c'' @ NL @ ''d'' @ NL @ ''e'' @ NL @ ''f'' @ NL))
     = Inr [Styled OpSame ''    a'', Plain NL, Styled OpSame ''    b'', Plain NL,
            Styled OpSame (''    ...'' @ NL),
            Styled OpSame ''    e'', Plain NL, Styled OpSame ''    f'', Plain NL]"
    using diffToPrettyString_windowing [where diffs = "[]" and op = OpSame and ls = "[]" and indent = 1 and n = 3 and index = 1
        and d = "Diff DiffEqual
          (''a'' @ NL @ ''b'' @ NL @ ''c'' @ NL @ ''d'' @ NL @ ''e'' @ NL @ ''f'' @ NL)"]
    by (simp add: ev)
  have 4: "diffRun 1 3 1 (Diff DiffEqual (''a'' @ NL @ ''b'' @ NL @ '' '' @ NL @ ''c'' @ NL @ ''d'' @ NL))
     = Inr [Styled OpSame ''    a'', Plain NL, Styled OpSame ''    b'', Plain NL,
            Styled OpSame ''    c'', Plain NL, Styled OpSame ''    d'', Plain NL]"
    using diffToPrettyString_windowing [where diffs = "[]" and op = OpSame and ls = "[]" and indent = 1 and n = 3 and index = 1
        and d = "Diff DiffEqual (''a'' @ NL @ ''b'' @ NL @ '' '' @ NL @ ''c'' @ NL @ ''d'' @ NL)"]
    by (simp add: ev)
  have 5: "diffRun 1 3 1 (Diff DiffInsert (''x'' @ NL @ '' '' @ NL))
     = Inr [Styled OpCreate ''  + x'', Plain NL]"
    using diffToPrettyString_windowing [where diffs = "[]" and op = OpSame and ls = "[]" and indent = 1 and n = 3 and index = 1
        and d = "Diff DiffInsert (''x'' @ NL @ '' '' @ NL)"]
    by (simp add: ev)
  have 6: "diffRun 1 3 1 (Diff DiffDelete (''y'' @ NL))
     = Inr [Styled OpDelete ''  - y'', Plain NL]"
    using diffToPrettyString_windowing [where diffs = "[]" and op = OpSame and ls = "[]" and indent = 1 and n = 3 and index = 1
        and d = "Diff DiffDelete (''y'' @ NL)"]
    by (simp add: ev)
  have 7: "diffRun 1 3 0 (Diff DiffEqual
        (''a'' @ NL @ [CHR 0xC2, CHR 0xA0] @ NL @ ''b'' @ NL
           @ [CHR 0xE3, CHR 0x80, CHR 0x80, CHR 0x09] @ NL @ ''c''))
     = Inr [Styled OpSame ''    a'', Plain NL, Styled OpSame ''    b'', Plain NL,
            Styled OpSame ''    c'', Plain NL]"
    using diffToPrettyString_windowing [where diffs = "[]" and op = OpSame and ls = "[]" and indent = 1 and n = 3 and index = 0
        and d = "Diff DiffEqual
          (''a'' @ NL @ [CHR 0xC2, CHR 0xA0] @ NL @ ''b'' @ NL
             @ [CHR 0xE3, CHR 0x80, CHR 0x80, CHR 0x09] @ NL @ ''c'')"]
    by (simp add: ev)
  show ?thesis using 1 2 3 4 5 6 7 by blast
qed

section \<open>Archives whose hash is unchanged\<close>

text \<open>
  Claim C1 has the archive differ render nothing in summary mode, and one Same-tagged
  line otherwise, when the two hashes are equal.  \<open>printArchiveDiff\<close> never compares the
  hashes (its comment leaves that check to be done), while \<open>printAssetDiff\<close> does: an
  unchanged file archive, on its own or as an entry of a changed archive, is rendered
  as an Update-tagged line in either mode.
\<close>

theorem printArchiveDiff_unchanged_archive:
  "printArchiveDiff exampleExternals (printPropertyTitle ''k'' 1 1)
      (FileArchive ''a.zip'' ''abc'') (FileArchive ''a.zip'' ''abc'') False 1 True False
     = Inr [Styled OpUpdate ''  ~ k: '',
            Styled OpUpdate (''archive(file:abc) { a.zip }'' @ NL)]
   \<and> printArchiveDiff exampleExternals (printPropertyTitle ''k'' 1 1)
      (FileArchive ''a.zip'' ''abc'') (FileArchive ''a.zip'' ''abc'') False 1 False False
     = Inr [Styled OpUpdate ''  ~ k: '',
            Styled OpUpdate (''archive(file:abc) { a.zip }'' @ NL)]
   \<and> printAssetsDiff exampleExternals
      [(''lib'', IsArchive (FileArchive ''a.zip'' ''abc''))]
      [(''lib'', IsArchive (FileArchive ''a.zip'' ''abc''))] False 2 True False
     = Inr [Styled OpUpdate (''      ~ '' @ DQ @ ''lib'' @ DQ @ '': ''),
            Styled OpUpdate (''archive(file:abc) { a.zip }'' @ NL)]"
  by code_simp

section \<open>Leaf updates\<close>

lemma shouldPrint_archive [simp]: "shouldPrintPropertyValue (PArchive a) outs"
  by (simp add: shouldPrintPropertyValue_def)

lemma shouldPrint_asset [simp]: "shouldPrintPropertyValue (PAsset a) outs"
  by (simp add: shouldPrintPropertyValue_def)

lemma IsArchiveValue_iff: "IsArchiveValue v \<longleftrightarrow> (\<exists>a. v = PArchive a)"
  by (cases v) simp_all

lemma printPropertyValueDiff_leaf:
  assumes "Array vd = None" "Object vd = None" "0 < indent"
  shows "printPropertyValueDiff ex title vd causedReplace planning indent summary debug =
     (if IsArchiveValue (Old vd) \<and> IsArchiveValue (New vd) \<and> \<not> causedReplace then
        (case ArchiveValue (Old vd) of
           Inl e \<Rightarrow> Inl e
         | Inr oldArchive \<Rightarrow>
             (case ArchiveValue (New vd) of
                Inl e \<Rightarrow> Inl e
              | Inr newArchive \<Rightarrow>
                  printArchiveDiff ex title oldArchive newArchive planning indent summary debug))
      else
        thenE (if shouldPrintPropertyValue (Old vd) False
               then printDelete ex (Old vd) title planning indent debug else Inr [])
              (if shouldPrintPropertyValue (New vd) False
               then printAdd ex (New vd) title planning indent debug else Inr []))"
  using assms
  by (subst printPropertyValueDiff.simps) (auto simp: Let_def IsArchiveValue_iff)

lemma printPropertyValue_nonempty:
  "printPropertyValue ex v planning indent op prefix debug \<noteq> Inr []"
  by (subst printPropertyValue.simps) (simp add: thenE_def split: sum.splits)

lemma thenE_eq_Nil: "thenE a b = Inr [] \<longleftrightarrow> a = Inr [] \<and> b = Inr []"
  by (cases a; cases b) simp_all

lemma printDelete_nonempty: "printDelete ex v title planning indent debug \<noteq> Inr []"
  by (simp add: printDelete_def thenE_eq_Nil printPropertyValue_nonempty)

lemma printAdd_nonempty: "printAdd ex v title planning indent debug \<noteq> Inr []"
  by (simp add: printAdd_def thenE_eq_Nil printPropertyValue_nonempty)

text \<open>Every write of a result carries the tag of one operation.\<close>

definition taggedWith :: "StepOp \<Rightarrow> result \<Rightarrow> bool" where
  "taggedWith op r =
     (case r of Inl e \<Rightarrow> True
      | Inr b \<Rightarrow> list_all (\<lambda>s. case s of Styled op' t \<Rightarrow> op' = op | Plain t \<Rightarrow> False) b)"

lemma taggedWith_Inl [simp]: "taggedWith op (Inl e)"
  by (simp add: taggedWith_def)

lemma taggedWith_Nil [simp]: "taggedWith op (Inr [])"
  by (simp add: taggedWith_def)

lemma taggedWith_thenE: "taggedWith op a \<Longrightarrow> taggedWith op b \<Longrightarrow> taggedWith op (thenE a b)"
  by (cases a; cases b) (simp_all add: taggedWith_def)

lemma taggedWith_seqAll: "(\<And>r. r \<in> set rs \<Longrightarrow> taggedWith op r) \<Longrightarrow> taggedWith op (seqAll rs)"
  by (induction rs) (simp_all add: taggedWith_thenE)

lemma taggedWith_writeWithIndent [simp]: "taggedWith op (writeWithIndent indent op prefix s)"
  by (simp add: writeWithIndent_eq taggedWith_def)

lemma taggedWith_writeWithIndentNoPrefix [simp]: "taggedWith op (writeWithIndentNoPrefix indent op s)"
  by (simp add: writeWithIndentNoPrefix_def)

lemma taggedWith_writeFmt [simp]: "taggedWith op (Inr [Styled op s])"
  by (simp add: taggedWith_def)

lemma taggedWith_printPropertyTitle [simp]: "taggedWith op (printPropertyTitle name align indent op prefix)"
  by (simp add: printPropertyTitle_def)

lemma printPropertyValue_tagged:
  "taggedWith op (printPropertyValue ex v planning indent op prefix debug)"
  "taggedWith op (printObject ex props planning indent op prefix debug)"
  "taggedWith op (printAssetOrArchive ex e name planning indent op prefix debug)"
proof (induction ex v planning indent op prefix debug and ex props planning indent op prefix debug
    and ex e name planning indent op prefix debug
    rule: printPropertyValue_printObject_printAssetOrArchive.induct)
  case (1 ex v planning indent op prefix debug)
  show ?case
    apply (subst printPropertyValue.simps)
    apply (intro taggedWith_thenE)
     apply (cases v)
    using 1
    by (auto intro!: taggedWith_thenE taggedWith_seqAll split: option.splits)
next
  case (2 ex props planning indent op prefix debug)
  show ?case
    apply (subst printObject.simps)
    using 2
    by (auto simp: Let_def intro!: taggedWith_thenE taggedWith_seqAll split: option.splits)
next
  case (3 ex v name planning indent op prefix debug)
  show ?case
    apply (subst printAssetOrArchive.simps)
    using 3
    by (auto intro!: taggedWith_thenE split: sum.splits)
qed

text \<open>
  Claim C10.  In the generic fallback of a leaf update, the Delete-tagged rendering of
  the old value is emitted exactly when the old value passes the print filter with
  outputs disabled, and the Create-tagged rendering of the new value exactly when the
  new value passes it: a change from a value that is filtered (null, empty string, empty
  array, empty object) to a printable one emits only the Create rendering, a change to a
  filtered value only the Delete rendering, and an output-valued side is never rendered.
  What is emitted is never empty, and is the title followed by writes tagged Delete (or
  Create).
\<close>

theorem leaf_fallback_filter:
  "Array vd = None \<and> Object vd = None \<and> 0 < indent \<longrightarrow>
     (\<not> (IsArchiveValue (Old vd) \<and> IsArchiveValue (New vd) \<and> \<not> causedReplace) \<longrightarrow>
        printPropertyValueDiff ex title vd causedReplace planning indent summary debug =
          thenE (if shouldPrintPropertyValue (Old vd) False
                 then printDelete ex (Old vd) title planning indent debug else Inr [])
                (if shouldPrintPropertyValue (New vd) False
                 then printAdd ex (New vd) title planning indent debug else Inr []))
   \<and> (\<not> shouldPrintPropertyValue (Old vd) False \<and> shouldPrintPropertyValue (New vd) False \<longrightarrow>
        printPropertyValueDiff ex title vd causedReplace planning indent summary debug =
          printAdd ex (New vd) title planning indent debug)
   \<and> (shouldPrintPropertyValue (Old vd) False \<and> \<not> shouldPrintPropertyValue (New vd) False \<longrightarrow>
        printPropertyValueDiff ex title vd causedReplace planning indent summary debug =
          printDelete ex (Old vd) title planning indent debug)
   \<and> ((\<exists>e. Old vd = POutput e) \<longrightarrow>
        \<not> shouldPrintPropertyValue (Old vd) False
        \<and> printPropertyValueDiff ex title vd causedReplace planning indent summary debug =
          (if shouldPrintPropertyValue (New vd) False
           then printAdd ex (New vd) title planning indent debug else Inr []))
   \<and> ((\<exists>e. New vd = POutput e) \<longrightarrow>
        \<not> shouldPrintPropertyValue (New vd) False
        \<and> printPropertyValueDiff ex title vd causedReplace planning indent summary debug =
          (if shouldPrintPropertyValue (Old vd) False
           then printDelete ex (Old vd) title planning indent debug else Inr []))
   \<and> printDelete ex (Old vd) title planning indent debug \<noteq> Inr []
   \<and> printAdd ex (New vd) title planning indent debug \<noteq> Inr []
   \<and> printDelete ex (Old vd) title planning indent debug =
       thenE (title OpDelete True)
         (printPropertyValue ex (Old vd) planning indent OpDelete True debug)
   \<and> taggedWith OpDelete (printPropertyValue ex (Old vd) planning indent OpDelete True debug)
   \<and> printAdd ex (New vd) title planning indent debug =
       thenE (title OpCreate True)
         (printPropertyValue ex (New vd) planning indent OpCreate True debug)
   \<and> taggedWith OpCreate (printPropertyValue ex (New vd) planning indent OpCreate True debug)"
proof (intro impI, elim conjE)
  assume leaf: "Array vd = None" "Object vd = None" "0 < indent"
  note eq = printPropertyValueDiff_leaf [OF leaf]
  have shown: "IsArchiveValue v \<Longrightarrow> shouldPrintPropertyValue v False" for v
    by (auto simp: IsArchiveValue_iff)
  have out: "\<not> shouldPrintPropertyValue (POutput e) False" for e
    by (simp add: shouldPrintPropertyValue_def)
  have A: "(\<not> (IsArchiveValue (Old vd) \<and> IsArchiveValue (New vd) \<and> \<not> causedReplace) \<longrightarrow>
        printPropertyValueDiff ex title vd causedReplace planning indent summary debug =
          thenE (if shouldPrintPropertyValue (Old vd) False
                 then printDelete ex (Old vd) title planning indent debug else Inr [])
                (if shouldPrintPropertyValue (New vd) False
                 then printAdd ex (New vd) title planning indent debug else Inr []))
   \<and> (\<not> shouldPrintPropertyValue (Old vd) False \<and> shouldPrintPropertyValue (New vd) False \<longrightarrow>
        printPropertyValueDiff ex title vd causedReplace planning indent summary debug =
          printAdd ex (New vd) title planning indent debug)
   \<and> (shouldPrintPropertyValue (Old vd) False \<and> \<not> shouldPrintPropertyValue (New vd) False \<longrightarrow>
        printPropertyValueDiff ex title vd causedReplace planning indent summary debug =
          printDelete ex (Old vd) title planning indent debug)
   \<and> ((\<exists>e. Old vd = POutput e) \<longrightarrow>
        \<not> shouldPrintPropertyValue (Old vd) False
        \<and> printPropertyValueDiff ex title vd causedReplace planning indent summary debug =
          (if shouldPrintPropertyValue (New vd) False
           then printAdd ex (New vd) title planning indent debug else Inr []))
   \<and> ((\<exists>e. New vd = POutput e) \<longrightarrow>
        \<not> shouldPrintPropertyValue (New vd) False
        \<and> printPropertyValueDiff ex title vd causedReplace planning indent summary debug =
          (if shouldPrintPropertyValue (Old vd) False
           then printDelete ex (Old vd) title planning indent debug else Inr []))
   \<and> printDelete ex (Old vd) title planning indent debug \<noteq> Inr []
   \<and> printAdd ex (New vd) title planning indent debug \<noteq> Inr []"
    using shown [of "Old vd"] shown [of "New vd"] out
    by (auto simp: eq printDelete_nonempty printAdd_nonempty)
  have B: "printDelete ex (Old vd) title planning indent debug =
       thenE (title OpDelete True)
         (printPropertyValue ex (Old vd) planning indent OpDelete True debug)
   \<and> taggedWith OpDelete (printPropertyValue ex (Old vd) planning indent OpDelete True debug)
   \<and> printAdd ex (New vd) title planning indent debug =
       thenE (title OpCreate True)
         (printPropertyValue ex (New vd) planning indent OpCreate True debug)
   \<and> taggedWith OpCreate (printPropertyValue ex (New vd) planning indent OpCreate True debug)"
    by (simp add: printDelete_def printAdd_def printPropertyValue_tagged)
  from A B show "(\<not> (IsArchiveValue (Old vd) \<and> IsArchiveValue (New vd) \<and> \<not> causedReplace) \<longrightarrow>
        printPropertyValueDiff ex title vd causedReplace planning indent summary debug =
          thenE (if shouldPrintPropertyValue (Old vd) False
                 then printDelete ex (Old vd) title planning indent debug else Inr [])
                (if shouldPrintPropertyValue (New vd) False
                 then printAdd ex (New vd) title planning indent debug else Inr []))
   \<and> (\<not> shouldPrintPropertyValue (Old vd) False \<and> shouldPrintPropertyValue (New vd) False \<longrightarrow>
        printPropertyValueDiff ex title vd causedReplace planning indent summary debug =
          printAdd ex (New vd) title planning indent debug)
   \<and> (shouldPrintPropertyValue (Old vd) False \<and> \<not> shouldPrintPropertyValue (New vd) False \<longrightarrow>
        printPropertyValueDiff ex title vd causedReplace planning indent summary debug =
          printDelete ex (Old vd) title planning indent debug)
   \<and> ((\<exists>e. Old vd = POutput e) \<longrightarrow>
        \<not> shouldPrintPropertyValue (Old vd) False
        \<and> printPropertyValueDiff ex title vd causedReplace planning indent summary debug =
          (if shouldPrintPropertyValue (New vd) False
           then printAdd ex (New vd) title planning indent debug else Inr []))
   \<and> ((\<exists>e. New vd = POutput e) \<longrightarrow>
        \<not> shouldPrintPropertyValue (New vd) False
        \<and> printPropertyValueDiff ex title vd causedReplace planning indent summary debug =
          (if shouldPrintPropertyValue (Old vd) False
           then printDelete ex (Old vd) title planning indent debug else Inr []))
   \<and> printDelete ex (Old vd) title planning indent debug \<noteq> Inr []
   \<and> printAdd ex (New vd) title planning indent debug \<noteq> Inr []
   \<and> printDelete ex (Old vd) title planning indent debug =
       thenE (title OpDelete True)
         (printPropertyValue ex (Old vd) planning indent OpDelete True debug)
   \<and> taggedWith OpDelete (printPropertyValue ex (Old vd) planning indent OpDelete True debug)
   \<and> printAdd ex (New vd) title planning indent debug =
       thenE (title OpCreate True)
         (printPropertyValue ex (New vd) planning indent OpCreate True debug)
   \<and> taggedWith OpCreate (printPropertyValue ex (New vd) planning indent OpCreate True debug)"
    by blast
qed

theorem leaf_fallback_filter_witness:
  "printPropertyValueDiff exampleExternals (printPropertyTitle ''k'' 1 1)
      (ValueDiff PNull (PString ''x'') None None) False False 1 False False
     = Inr [Styled OpCreate ''  + k: '', Styled OpCreate (DQ @ ''x'' @ DQ), Styled OpCreate NL]
   \<and> printPropertyValueDiff exampleExternals (printPropertyTitle ''k'' 1 1)
      (ValueDiff (PString ''x'') PNull None None) False False 1 False False
     = Inr [Styled OpDelete ''  - k: '', Styled OpDelete (DQ @ ''x'' @ DQ), Styled OpDelete NL]
   \<and> printPropertyValueDiff exampleExternals (printPropertyTitle ''k'' 1 1)
      (ValueDiff (POutput (PString [])) (PString ''y'') None None) False False 1 False False
     = Inr [Styled OpCreate ''  + k: '', Styled OpCreate (DQ @ ''y'' @ DQ), Styled OpCreate NL]
   \<and> printPropertyValueDiff exampleExternals (printPropertyTitle ''k'' 1 1)
      (ValueDiff (PString ''x'') (PString ''y'') None None) True False 1 False False
     = Inr [Styled OpDelete ''  - k: '', Styled OpDelete (DQ @ ''x'' @ DQ), Styled OpDelete NL,
            Styled OpCreate ''  + k: '', Styled OpCreate (DQ @ ''y'' @ DQ), Styled OpCreate NL]"
proof -
  note ev = printAdd_def printDelete_def printPropertyValue.simps printPropertyTitle_def
    writeWithIndent_eq exampleExternals_def padRight_def RuneCountInString_def runes.simps
    numeral_2_eq_2
    shouldPrintPropertyValue_def
  have 1: "printPropertyValueDiff exampleExternals (printPropertyTitle ''k'' 1 1)
      (ValueDiff PNull (PString ''x'') None None) False False 1 False False
     = Inr [Styled OpCreate ''  + k: '', Styled OpCreate (DQ @ ''x'' @ DQ), Styled OpCreate NL]"
    using leaf_fallback_filter [where vd = "ValueDiff PNull (PString ''x'') None None"
        and indent = 1 and ex = exampleExternals and title = "printPropertyTitle ''k'' 1 1"
        and causedReplace = False and planning = False and summary = False and debug = False]
    by (simp add: ev)
  have 2: "printPropertyValueDiff exampleExternals (printPropertyTitle ''k'' 1 1)
      (ValueDiff (PString ''x'') PNull None None) False False 1 False False
     = Inr [Styled OpDelete ''  - k: '', Styled OpDelete (DQ @ ''x'' @ DQ), Styled OpDelete NL]"
    using leaf_fallback_filter [where vd = "ValueDiff (PString ''x'') PNull None None"
        and indent = 1 and ex = exampleExternals and title = "printPropertyTitle ''k'' 1 1"
        and causedReplace = False and planning = False and summary = False and debug = False]
    by (simp add: ev)
  have 3: "printPropertyValueDiff exampleExternals (printPropertyTitle ''k'' 1 1)
      (ValueDiff (POutput (PString [])) (PString ''y'') None None) False False 1 False False
     = Inr [Styled OpCreate ''  + k: '', Styled OpCreate (DQ @ ''y'' @ DQ), Styled OpCreate NL]"
    using leaf_fallback_filter [where vd = "ValueDiff (POutput (PString [])) (PString ''y'') None None"
        and indent = 1 and ex = exampleExternals and title = "printPropertyTitle ''k'' 1 1"
        and causedReplace = False and planning = False and summary = False and debug = False]
    by (simp add: ev)
  have 4: "printPropertyValueDiff exampleExternals (printPropertyTitle ''k'' 1 1)
      (ValueDiff (PString ''x'') (PString ''y'') None None) True False 1 False False
     = Inr [Styled OpDelete ''  - k: '', Styled OpDelete (DQ @ ''x'' @ DQ), Styled OpDelete NL,
            Styled OpCreate ''  + k: '', Styled OpCreate (DQ @ ''y'' @ DQ), Styled OpCreate NL]"
    using leaf_fallback_filter [where vd = "ValueDiff (PString ''x'') (PString ''y'') None None"
        and indent = 1 and ex = exampleExternals and title = "printPropertyTitle ''k'' 1 1"
        and causedReplace = True and planning = False and summary = False and debug = False]
    by (simp add: ev)
  show ?thesis using 1 2 3 4 by blast
qed

text \<open>
  Claim C2, as stated, has a leaf update of two assets go to the asset differ.
  \<open>printPropertyValueDiff\<close> tests for two archives only: two file assets with different
  hashes are rendered as a deletion followed by an addition, where \<open>printAssetDiff\<close>
  would render one Update-tagged line.
\<close>

theorem leaf_assets_counterexample:
  "printPropertyValueDiff exampleExternals (printPropertyTitle ''k'' 1 1)
      (ValueDiff (PAsset (FileAsset ''a.txt'' ''1111'')) (PAsset (FileAsset ''a.txt'' ''2222''))
         None None)
      False False 1 False False
     = Inr [Styled OpDelete ''  - k: '', Styled OpDelete ''asset(file:1111) { a.txt }'',
            Styled OpDelete NL,
            Styled OpCreate ''  + k: '', Styled OpCreate ''asset(file:2222) { a.txt }'',
            Styled OpCreate NL]
   \<and> printAssetDiff exampleExternals (printPropertyTitle ''k'' 1 1)
      (FileAsset ''a.txt'' ''1111'') (FileAsset ''a.txt'' ''2222'') False 1 False False
     = Inr [Styled OpUpdate ''  ~ k: '',
            Styled OpUpdate (''asset(file:1111->2222) { a.txt }'' @ NL)]"
  by code_simp

text \<open>
  Claim C2, amended.  A leaf update (no array diff, no object diff) whose old and new
  values are both archives, with \<open>causedReplace\<close> false, is rendered by the archive
  differ; every other leaf update, one of two assets among them, is rendered by the
  generic fallback: the Delete-tagged old value, then the Create-tagged new value, each
  if it passes the print filter.
\<close>

theorem leaf_dispatch:
  "Array vd = None \<and> Object vd = None \<and> 0 < indent \<longrightarrow>
     (Old vd = PArchive oldArchive \<and> New vd = PArchive newArchive \<and> \<not> causedReplace \<longrightarrow>
        printPropertyValueDiff ex title vd causedReplace planning indent summary debug =
          printArchiveDiff ex title oldArchive newArchive planning indent summary debug)
   \<and> (\<not> (IsArchiveValue (Old vd) \<and> IsArchiveValue (New vd) \<and> \<not> causedReplace) \<longrightarrow>
        printPropertyValueDiff ex title vd causedReplace planning indent summary debug =
          thenE (if shouldPrintPropertyValue (Old vd) False
                 then printDelete ex (Old vd) title planning indent debug else Inr [])
                (if shouldPrintPropertyValue (New vd) False
                 then printAdd ex (New vd) title planning indent debug else Inr []))
   \<and> (Old vd = PAsset oldAsset \<and> New vd = PAsset newAsset \<longrightarrow>
        printPropertyValueDiff ex title vd causedReplace planning indent summary debug =
          thenE (printDelete ex (PAsset oldAsset) title planning indent debug)
                (printAdd ex (PAsset newAsset) title planning indent debug))"
proof (intro impI, elim conjE)
  assume leaf: "Array vd = None" "Object vd = None" "0 < indent"
  note eq = printPropertyValueDiff_leaf [OF leaf]
  show "(Old vd = PArchive oldArchive \<and> New vd = PArchive newArchive \<and> \<not> causedReplace \<longrightarrow>
        printPropertyValueDiff ex title vd causedReplace planning indent summary debug =
          printArchiveDiff ex title oldArchive newArchive planning indent summary debug)
   \<and> (\<not> (IsArchiveValue (Old vd) \<and> IsArchiveValue (New vd) \<and> \<not> causedReplace) \<longrightarrow>
        printPropertyValueDiff ex title vd causedReplace planning indent summary debug =
          thenE (if shouldPrintPropertyValue (Old vd) False
                 then printDelete ex (Old vd) title planning indent debug else Inr [])
                (if shouldPrintPropertyValue (New vd) False
                 then printAdd ex (New vd) title planning indent debug else Inr []))
   \<and> (Old vd = PAsset oldAsset \<and> New vd = PAsset newAsset \<longrightarrow>
        printPropertyValueDiff ex title vd causedReplace planning indent summary debug =
          thenE (printDelete ex (PAsset oldAsset) title planning indent debug)
                (printAdd ex (PAsset newAsset) title planning indent debug))"
    by (auto simp: eq)
qed

theorem leaf_dispatch_witness:
  "printPropertyValueDiff exampleExternals (printPropertyTitle ''k'' 1 1)
      (ValueDiff (PArchive (FileArchive ''a.zip'' ''1111''))
         (PArchive (FileArchive ''b.zip'' ''2222'')) None None)
      False False 1 False False
     = Inr [Styled OpUpdate ''  ~ k: '',
            Styled OpUpdate (''archive(file:1111->2222) { a.zip->b.zip }'' @ NL)]
   \<and> printPropertyValueDiff exampleExternals (printPropertyTitle ''k'' 1 1)
      (ValueDiff (PArchive (FileArchive ''a.zip'' ''1111''))
         (PArchive (FileArchive ''b.zip'' ''2222'')) None None)
      True False 1 False False
     = Inr [Styled OpDelete ''  - k: '', Styled OpDelete ''archive(file:1111) { a.zip }'',
            Styled OpDelete NL,
            Styled OpCreate ''  + k: '', Styled OpCreate ''archive(file:2222) { b.zip }'',
            Styled OpCreate NL]
   \<and> printPropertyValueDiff exampleExternals (printPropertyTitle ''k'' 1 1)
      (ValueDiff (PAsset (FileAsset ''a.txt'' ''1111'')) (PAsset (FileAsset ''a.txt'' ''2222''))
         None None)
      False False 1 False False
     = Inr [Styled OpDelete ''  - k: '', Styled OpDelete ''asset(file:1111) { a.txt }'',
            Styled OpDelete NL,
            Styled OpCreate ''  + k: '', Styled OpCreate ''asset(file:2222) { a.txt }'',
            Styled OpCreate NL]"
proof -
  note ev = printAdd_def printDelete_def printPropertyValue.simps printPropertyTitle_def
    writeWithIndent_eq exampleExternals_def padRight_def RuneCountInString_def runes.simps
    numeral_2_eq_2
    shouldPrintPropertyValue_def printArchiveDiff.simps shortHash_def getTextChangeString_def
    Let_def
  have 1: "printPropertyValueDiff exampleExternals (printPropertyTitle ''k'' 1 1)
      (ValueDiff (PArchive (FileArchive ''a.zip'' ''1111''))
         (PArchive (FileArchive ''b.zip'' ''2222'')) None None)
      False False 1 False False
     = Inr [Styled OpUpdate ''  ~ k: '',
            Styled OpUpdate (''archive(file:1111->2222) { a.zip->b.zip }'' @ NL)]"
    using leaf_dispatch [where vd = "ValueDiff (PArchive (FileArchive ''a.zip'' ''1111''))
         (PArchive (FileArchive ''b.zip'' ''2222'')) None None"
        and oldArchive = "FileArchive ''a.zip'' ''1111''"
        and newArchive = "FileArchive ''b.zip'' ''2222''"
        and indent = 1 and ex = exampleExternals and title = "printPropertyTitle ''k'' 1 1"
        and causedReplace = False and planning = False and summary = False and debug = False]
    by (simp add: ev)
  have 2: "printPropertyValueDiff exampleExternals (printPropertyTitle ''k'' 1 1)
      (ValueDiff (PArchive (FileArchive ''a.zip'' ''1111''))
         (PArchive (FileArchive ''b.zip'' ''2222'')) None None)
      True False 1 False False
     = Inr [Styled OpDelete ''  - k: '', Styled OpDelete ''archive(file:1111) { a.zip }'',
            Styled OpDelete NL,
            Styled OpCreate ''  + k: '', Styled OpCreate ''archive(file:2222) { b.zip }'',
            Styled OpCreate NL]"
    using leaf_dispatch [where vd = "ValueDiff (PArchive (FileArchive ''a.zip'' ''1111''))
         (PArchive (FileArchive ''b.zip'' ''2222'')) None None"
        and indent = 1 and ex = exampleExternals and title = "printPropertyTitle ''k'' 1 1"
        and causedReplace = True and planning = False and summary = False and debug = False]
    by (simp add: ev)
  have 3: "printPropertyValueDiff exampleExternals (printPropertyTitle ''k'' 1 1)
      (ValueDiff (PAsset (FileAsset ''a.txt'' ''1111'')) (PAsset (FileAsset ''a.txt'' ''2222''))
         None None)
      False False 1 False False
     = Inr [Styled OpDelete ''  - k: '', Styled OpDelete ''asset(file:1111) { a.txt }'',
            Styled OpDelete NL,
            Styled OpCreate ''  + k: '', Styled OpCreate ''asset(file:2222) { a.txt }'',
            Styled OpCreate NL]"
    using leaf_dispatch [where vd = "ValueDiff (PAsset (FileAsset ''a.txt'' ''1111''))
         (PAsset (FileAsset ''a.txt'' ''2222'')) None None"
        and oldAsset = "FileAsset ''a.txt'' ''1111''" and newAsset = "FileAsset ''a.txt'' ''2222''"
        and indent = 1 and ex = exampleExternals and title = "printPropertyTitle ''k'' 1 1"
        and causedReplace = False and planning = False and summary = False and debug = False]
    by (simp add: ev)
  show ?thesis using 1 2 3 by blast
qed

section \<open>Sorted-name merge of archive entries\<close>

text \<open>
  The merge in the words of the spec: two pointers advance over the sorted name lists;
  equal names are an update and both pointers advance, a smaller old name is a deletion
  and a smaller new name an addition, until both lists are exhausted.
\<close>

datatype entryChange = DeleteEntry | UpdateEntry | AddEntry

fun mergeNames :: "string list \<Rightarrow> string list \<Rightarrow> (entryChange \<times> string) list" where
  "mergeNames [] [] = []"
| "mergeNames (oldName # oldRest) [] = (DeleteEntry, oldName) # mergeNames oldRest []"
| "mergeNames [] (newName # newRest) = (AddEntry, newName) # mergeNames [] newRest"
| "mergeNames (oldName # oldRest) (newName # newRest) =
     (if oldName = newName then (UpdateEntry, oldName) # mergeNames oldRest newRest
      else if oldName < newName then (DeleteEntry, oldName) # mergeNames oldRest (newName # newRest)
      else (AddEntry, newName) # mergeNames (oldName # oldRest) newRest)"

text \<open>
  What the spec has rendered for an entry of the merge: a deletion and an addition render
  the whole entry one level deeper; an update recurses into the archive differ or the
  asset differ, by the kind of the entry; an entry that is an asset on one side and an
  archive on the other is no error, it is rendered as the deletion of the old entry
  followed by the addition of the new one, the way the two differs render a change of
  kind.
\<close>

definition diffEntry ::
    "externals \<Rightarrow> (string \<times> AssetOrArchive) list \<Rightarrow> (string \<times> AssetOrArchive) list \<Rightarrow> nat \<Rightarrow> bool
      \<Rightarrow> int \<Rightarrow> bool \<Rightarrow> bool \<Rightarrow> entryChange \<times> string \<Rightarrow> result" where
  "diffEntry ex oldAssets newAssets maxkey planning indent summary debug e =
     (let name = snd e;
          titleFunc = (\<lambda>top tprefix. printPropertyTitle (DQ @ name @ DQ) maxkey indent top tprefix)
      in
      case fst e of
        DeleteEntry \<Rightarrow>
          withValue (assetOrArchiveToPropertyValue (map_of oldAssets name))
            (\<lambda>v. printDelete ex v titleFunc planning (indent + 1) debug)
      | AddEntry \<Rightarrow>
          withValue (assetOrArchiveToPropertyValue (map_of newAssets name))
            (\<lambda>v. printAdd ex v titleFunc planning (indent + 1) debug)
      | UpdateEntry \<Rightarrow>
          (case (map_of oldAssets name, map_of newAssets name) of
             (Some (IsArchive t), Some (IsArchive t')) \<Rightarrow>
               printArchiveDiff ex titleFunc t t' planning indent summary debug
           | (Some (IsAsset t), Some (IsAsset t')) \<Rightarrow>
               printAssetDiff ex titleFunc t t' planning indent summary debug
           | (oldEntry, newEntry) \<Rightarrow>
               thenE (withValue (assetOrArchiveToPropertyValue oldEntry)
                        (\<lambda>v. printDelete ex v titleFunc planning indent debug))
                     (withValue (assetOrArchiveToPropertyValue newEntry)
                        (\<lambda>v. printAdd ex v titleFunc planning indent debug))))"

text \<open>Two entries of the same kind: both assets, or both archives.\<close>

fun sameKind :: "AssetOrArchive \<Rightarrow> AssetOrArchive \<Rightarrow> bool" where
  "sameKind (IsAsset a) (IsAsset a') = True"
| "sameKind (IsArchive a) (IsArchive a') = True"
| "sameKind (IsAsset a) (IsArchive a') = False"
| "sameKind (IsArchive a) (IsAsset a') = False"

definition sameKinds :: "(string \<times> AssetOrArchive) list \<Rightarrow> (string \<times> AssetOrArchive) list \<Rightarrow> bool" where
  "sameKinds oldAssets newAssets =
     list_all (\<lambda>name.
        case (map_of oldAssets name, map_of newAssets name) of
          (Some t, Some t') \<Rightarrow> sameKind t t'
        | _ \<Rightarrow> True)
       (map fst oldAssets)"

lemma sameKindsD:
  assumes "sameKinds oldAssets newAssets"
    and "map_of oldAssets name = Some t" and "map_of newAssets name = Some t'"
  shows "sameKind t t'"
proof -
  from assms(2) have "name \<in> set (map fst oldAssets)"
    by (metis domI dom_map_of_conv_image_fst set_map)
  with assms show ?thesis
    by (auto simp: sameKinds_def list_all_iff)
qed

lemma diffEntry_delete:
  "diffEntry ex oldAssets newAssets maxkey planning indent summary debug (DeleteEntry, name) =
     withValue (assetOrArchiveToPropertyValue (map_of oldAssets name))
       (\<lambda>v. printDelete ex v
          (\<lambda>top tprefix. printPropertyTitle (DQ @ name @ DQ) maxkey indent top tprefix)
          planning (indent + 1) debug)"
  by (simp add: diffEntry_def)

lemma diffEntry_add:
  "diffEntry ex oldAssets newAssets maxkey planning indent summary debug (AddEntry, name) =
     withValue (assetOrArchiveToPropertyValue (map_of newAssets name))
       (\<lambda>v. printAdd ex v
          (\<lambda>top tprefix. printPropertyTitle (DQ @ name @ DQ) maxkey indent top tprefix)
          planning (indent + 1) debug)"
  by (simp add: diffEntry_def)

lemma diffEntry_update:
  assumes "map_of oldAssets name = Some t" and "map_of newAssets name = Some t'"
    and "sameKind t t'"
  shows "diffEntry ex oldAssets newAssets maxkey planning indent summary debug (UpdateEntry, name) =
     (case map_of oldAssets name of
        Some (IsArchive t) \<Rightarrow>
          (case map_of newAssets name of
             Some (IsArchive t') \<Rightarrow>
               printArchiveDiff ex
                 (\<lambda>top tprefix. printPropertyTitle (DQ @ name @ DQ) maxkey indent top tprefix)
                 t t' planning indent summary debug
           | _ \<Rightarrow> Inl TypeAssertionFailed)
      | Some (IsAsset t) \<Rightarrow>
          (case map_of newAssets name of
             Some (IsAsset t') \<Rightarrow>
               printAssetDiff ex
                 (\<lambda>top tprefix. printPropertyTitle (DQ @ name @ DQ) maxkey indent top tprefix)
                 t t' planning indent summary debug
           | _ \<Rightarrow> Inl TypeAssertionFailed)
      | None \<Rightarrow> Inr [])"
  using assms by (cases t; cases t') (simp_all add: diffEntry_def Let_def)

lemma printAssetsDiffFrom_merge:
  assumes "sameKinds oldAssets newAssets"
    and "set oldNames \<subseteq> fst ` set oldAssets" and "set newNames \<subseteq> fst ` set newAssets"
  shows "printAssetsDiffFrom ex oldAssets newAssets maxkey planning indent summary debug
           oldNames newNames
     = seqAll (map (diffEntry ex oldAssets newAssets maxkey planning indent summary debug)
         (mergeNames oldNames newNames))"
  using assms(2,3)
proof (induction oldNames newNames rule: mergeNames.induct)
  case 1
  show ?case by (simp add: printAssetsDiffFrom.simps)
next
  case (2 oldName oldRest)
  then show ?case by (simp add: printAssetsDiffFrom.simps diffEntry_delete)
next
  case (3 newName newRest)
  then show ?case by (simp add: printAssetsDiffFrom.simps diffEntry_add)
next
  case (4 oldName oldRest newName newRest)
  show ?case
  proof (cases "oldName = newName")
    case True
    from 4(4) True obtain t where t: "map_of oldAssets newName = Some t"
      by (metis domD dom_map_of_conv_image_fst list.set_intros(1) subsetD)
    from 4(5) obtain t' where t': "map_of newAssets newName = Some t'"
      by (metis domD dom_map_of_conv_image_fst list.set_intros(1) subsetD)
    from sameKindsD [OF assms(1) t t'] have k: "sameKind t t'" .
    from 4(1) [OF True] 4(4,5)
    have rest: "printAssetsDiffFrom ex oldAssets newAssets maxkey planning indent summary debug
                  oldRest newRest
                = seqAll (map (diffEntry ex oldAssets newAssets maxkey planning indent summary debug)
                    (mergeNames oldRest newRest))"
      by simp
    show ?thesis
      using True rest
      by (simp add: printAssetsDiffFrom.simps diffEntry_update [OF t t' k] Let_def)
  next
    case ne: False
    show ?thesis
    proof (cases "oldName < newName")
      case True
      from 4(2) [OF ne True] 4(4,5)
      have "printAssetsDiffFrom ex oldAssets newAssets maxkey planning indent summary debug
              oldRest (newName # newRest)
            = seqAll (map (diffEntry ex oldAssets newAssets maxkey planning indent summary debug)
                (mergeNames oldRest (newName # newRest)))"
        by simp
      with ne True show ?thesis
        by (simp add: printAssetsDiffFrom.simps diffEntry_delete)
    next
      case False
      from 4(3) [OF ne False] 4(4,5)
      have "printAssetsDiffFrom ex oldAssets newAssets maxkey planning indent summary debug
              (oldName # oldRest) newRest
            = seqAll (map (diffEntry ex oldAssets newAssets maxkey planning indent summary debug)
                (mergeNames (oldName # oldRest) newRest))"
        by simp
      with ne False show ?thesis
        by (simp add: printAssetsDiffFrom.simps diffEntry_add)
    qed
  qed
qed

lemma snd_set_mergeNames: "snd ` set (mergeNames os ns) = set os \<union> set ns"
  by (induction os ns rule: mergeNames.induct) auto

lemma mergeNames_name_mem: "(c, x) \<in> set (mergeNames os ns) \<Longrightarrow> x \<in> set os \<union> set ns"
  using snd_set_mergeNames [of os ns] by force

lemma sorted_mergeNames:
  "sorted_wrt (<) os \<Longrightarrow> sorted_wrt (<) ns \<Longrightarrow> sorted_wrt (<) (map snd (mergeNames os ns))"
proof (induction os ns rule: mergeNames.induct)
  case (4 oldName oldRest newName newRest)
  from 4(4) have old: "\<forall>x\<in>set oldRest. oldName < x" "sorted_wrt (<) oldRest" by simp_all
  from 4(5) have new: "\<forall>x\<in>set newRest. newName < x" "sorted_wrt (<) newRest" by simp_all
  show ?case
  proof (cases "oldName = newName")
    case True
    have "sorted_wrt (<) (map snd (mergeNames oldRest newRest))"
      using 4(1) [OF True] old new by simp
    moreover have "\<forall>x\<in>set (mergeNames oldRest newRest). oldName < snd x"
      using old new True by (auto dest!: mergeNames_name_mem)
    ultimately show ?thesis using True by simp
  next
    case False
    show ?thesis
    proof (cases "oldName < newName")
      case True
      have "sorted_wrt (<) (map snd (mergeNames oldRest (newName # newRest)))"
        using 4(2) [OF False True] old 4(5) by simp
      moreover have "\<forall>x\<in>set newRest. oldName < x"
        using new True by (auto intro: less_trans)
      then have "\<forall>x\<in>set (mergeNames oldRest (newName # newRest)). oldName < snd x"
        using old True by (auto dest!: mergeNames_name_mem)
      ultimately show ?thesis using False True by simp
    next
      case ge: False
      with False have lt: "newName < oldName" by simp
      have "sorted_wrt (<) (map snd (mergeNames (oldName # oldRest) newRest))"
        using 4(3) [OF False ge] new 4(4) by simp
      moreover have "\<forall>x\<in>set oldRest. newName < x"
        using old lt by (auto intro: less_trans)
      then have "\<forall>x\<in>set (mergeNames (oldName # oldRest) newRest). newName < snd x"
        using new lt by (auto dest!: mergeNames_name_mem)
      ultimately show ?thesis using False ge by simp
    qed
  qed
qed (auto dest!: mergeNames_name_mem)

lemma set_mergeNames:
  "sorted_wrt (<) os \<Longrightarrow> sorted_wrt (<) ns \<Longrightarrow>
     set (mergeNames os ns) =
       (\<lambda>n. (DeleteEntry, n)) ` (set os - set ns)
       \<union> (\<lambda>n. (UpdateEntry, n)) ` (set os \<inter> set ns)
       \<union> (\<lambda>n. (AddEntry, n)) ` (set ns - set os)"
proof (induction os ns rule: mergeNames.induct)
  case (4 oldName oldRest newName newRest)
  from 4(4) have old: "\<forall>x\<in>set oldRest. oldName < x" "sorted_wrt (<) oldRest" by simp_all
  from 4(5) have new: "\<forall>x\<in>set newRest. newName < x" "sorted_wrt (<) newRest" by simp_all
  have o1: "oldName \<notin> set oldRest" using old by auto
  have n1: "newName \<notin> set newRest" using new by auto
  show ?case
  proof (cases "oldName = newName")
    case True
    have o2: "oldName \<notin> set newRest" using new True by auto
    have "set (mergeNames oldRest newRest) =
       (\<lambda>n. (DeleteEntry, n)) ` (set oldRest - set newRest)
       \<union> (\<lambda>n. (UpdateEntry, n)) ` (set oldRest \<inter> set newRest)
       \<union> (\<lambda>n. (AddEntry, n)) ` (set newRest - set oldRest)"
      using 4(1) [OF True] old new by simp
    then show ?thesis using True o1 o2 by auto
  next
    case False
    show ?thesis
    proof (cases "oldName < newName")
      case True
      have "\<forall>x\<in>set newRest. oldName < x"
        using new True by (auto intro: less_trans)
      then have o2: "oldName \<notin> set (newName # newRest)" using False by auto
      have "set (mergeNames oldRest (newName # newRest)) =
         (\<lambda>n. (DeleteEntry, n)) ` (set oldRest - set (newName # newRest))
         \<union> (\<lambda>n. (UpdateEntry, n)) ` (set oldRest \<inter> set (newName # newRest))
         \<union> (\<lambda>n. (AddEntry, n)) ` (set (newName # newRest) - set oldRest)"
        using 4(2) [OF False True] old 4(5) by simp
      then show ?thesis using False True o1 o2 by auto
    next
      case ge: False
      with False have lt: "newName < oldName" by simp
      have "\<forall>x\<in>set oldRest. newName < x"
        using old lt by (auto intro: less_trans)
      then have n2: "newName \<notin> set (oldName # oldRest)" using False by auto
      have "set (mergeNames (oldName # oldRest) newRest) =
         (\<lambda>n. (DeleteEntry, n)) ` (set (oldName # oldRest) - set newRest)
         \<union> (\<lambda>n. (UpdateEntry, n)) ` (set (oldName # oldRest) \<inter> set newRest)
         \<union> (\<lambda>n. (AddEntry, n)) ` (set newRest - set (oldName # oldRest))"
        using 4(3) [OF False ge] new 4(4) by simp
      then show ?thesis using False ge n1 n2 by auto
    qed
  qed
qed auto

lemma sortedNames_strict: "sorted_wrt (<) (sortedNames m)"
  by (simp add: sortedNames_def strict_sorted_iff)

lemma set_sortedNames: "set (sortedNames m) = fst ` set m"
  by (simp add: sortedNames_def)

text \<open>
  Where no name holds an asset in one map and an archive in the other, \<open>printAssetsDiff\<close>
  renders the entries of the two-pointer merge of the sorted name lists, one after the
  other.  The names of the merge are strictly increasing, so deletions, updates and
  additions are interleaved in lexicographic name order; a name of the old map only is a
  deletion, a name of both maps an update, a name of the new map only an addition, and
  every name is rendered once.  Old \<open>{a, b, d}\<close> against new \<open>{b, c, d}\<close> gives delete
  \<open>a\<close>, update \<open>b\<close>, add \<open>c\<close>, update \<open>d\<close>.
\<close>

theorem printAssetsDiff_sorted_merge:
  "(sameKinds oldAssets newAssets \<longrightarrow>
     printAssetsDiff ex oldAssets newAssets planning indent summary debug =
       seqAll (map (diffEntry ex oldAssets newAssets
                      (maxKey (map (\<lambda>name. DQ @ name @ DQ) (sortedNames oldAssets)
                               @ map (\<lambda>name. DQ @ name @ DQ) (sortedNames newAssets)))
                      planning indent summary debug)
                 (mergeNames (sortedNames oldAssets) (sortedNames newAssets))))
   \<and> sorted_wrt (<) (map snd (mergeNames (sortedNames oldAssets) (sortedNames newAssets)))
   \<and> set (mergeNames (sortedNames oldAssets) (sortedNames newAssets)) =
       (\<lambda>n. (DeleteEntry, n)) ` (fst ` set oldAssets - fst ` set newAssets)
       \<union> (\<lambda>n. (UpdateEntry, n)) ` (fst ` set oldAssets \<inter> fst ` set newAssets)
       \<union> (\<lambda>n. (AddEntry, n)) ` (fst ` set newAssets - fst ` set oldAssets)
   \<and> mergeNames [''a'', ''b'', ''d''] [''b'', ''c'', ''d'']
       = [(DeleteEntry, ''a''), (UpdateEntry, ''b''), (AddEntry, ''c''), (UpdateEntry, ''d'')]"
proof (intro conjI impI)
  assume sk: "sameKinds oldAssets newAssets"
  show "printAssetsDiff ex oldAssets newAssets planning indent summary debug =
     seqAll (map (diffEntry ex oldAssets newAssets
                    (maxKey (map (\<lambda>name. DQ @ name @ DQ) (sortedNames oldAssets)
                             @ map (\<lambda>name. DQ @ name @ DQ) (sortedNames newAssets)))
                    planning indent summary debug)
               (mergeNames (sortedNames oldAssets) (sortedNames newAssets)))"
    by (simp add: printAssetsDiff.simps Let_def
        printAssetsDiffFrom_merge [OF sk] set_sortedNames)
next
  show "sorted_wrt (<) (map snd (mergeNames (sortedNames oldAssets) (sortedNames newAssets)))"
    by (intro sorted_mergeNames sortedNames_strict)
next
  show "set (mergeNames (sortedNames oldAssets) (sortedNames newAssets)) =
       (\<lambda>n. (DeleteEntry, n)) ` (fst ` set oldAssets - fst ` set newAssets)
       \<union> (\<lambda>n. (UpdateEntry, n)) ` (fst ` set oldAssets \<inter> fst ` set newAssets)
       \<union> (\<lambda>n. (AddEntry, n)) ` (fst ` set newAssets - fst ` set oldAssets)"
    using set_mergeNames [OF sortedNames_strict sortedNames_strict, of oldAssets newAssets]
    by (simp add: set_sortedNames)
next
  show "mergeNames [''a'', ''b'', ''d''] [''b'', ''c'', ''d'']
       = [(DeleteEntry, ''a''), (UpdateEntry, ''b''), (AddEntry, ''c''), (UpdateEntry, ''d'')]"
    by code_simp
qed

theorem printAssetsDiff_sorted_merge_witness:
  "printAssetsDiff exampleExternals
      [(''d'', IsAsset (FileAsset ''d.txt'' ''4444'')), (''a'', IsAsset (FileAsset ''a.txt'' ''1111'')),
       (''b'', IsAsset (FileAsset ''b.txt'' ''2222''))]
      [(''b'', IsAsset (FileAsset ''b.txt'' ''2223'')), (''c'', IsAsset (FileAsset ''c.txt'' ''3333'')),
       (''d'', IsAsset (FileAsset ''d.txt'' ''4445''))]
      False 2 False False
     = Inr [Styled OpDelete (''      - '' @ DQ @ ''a'' @ DQ @ '': ''),
            Styled OpDelete ''asset(file:1111) { a.txt }'', Styled OpDelete NL,
            Styled OpUpdate (''      ~ '' @ DQ @ ''b'' @ DQ @ '': ''),
            Styled OpUpdate (''asset(file:2222->2223) { b.txt }'' @ NL),
            Styled OpCreate (''      + '' @ DQ @ ''c'' @ DQ @ '': ''),
            Styled OpCreate ''asset(file:3333) { c.txt }'', Styled OpCreate NL,
            Styled OpUpdate (''      ~ '' @ DQ @ ''d'' @ DQ @ '': ''),
            Styled OpUpdate (''asset(file:4444->4445) { d.txt }'' @ NL)]"
proof -
  have sk: "sameKinds
      [(''d'', IsAsset (FileAsset ''d.txt'' ''4444'')), (''a'', IsAsset (FileAsset ''a.txt'' ''1111'')),
       (''b'', IsAsset (FileAsset ''b.txt'' ''2222''))]
      [(''b'', IsAsset (FileAsset ''b.txt'' ''2223'')), (''c'', IsAsset (FileAsset ''c.txt'' ''3333'')),
       (''d'', IsAsset (FileAsset ''d.txt'' ''4445''))]"
    by code_simp
  have "seqAll (map (diffEntry exampleExternals
      [(''d'', IsAsset (FileAsset ''d.txt'' ''4444'')), (''a'', IsAsset (FileAsset ''a.txt'' ''1111'')),
       (''b'', IsAsset (FileAsset ''b.txt'' ''2222''))]
      [(''b'', IsAsset (FileAsset ''b.txt'' ''2223'')), (''c'', IsAsset (FileAsset ''c.txt'' ''3333'')),
       (''d'', IsAsset (FileAsset ''d.txt'' ''4445''))]
      (maxKey (map (\<lambda>name. DQ @ name @ DQ) (sortedNames
         [(''d'', IsAsset (FileAsset ''d.txt'' ''4444'')), (''a'', IsAsset (FileAsset ''a.txt'' ''1111'')),
       (''b'', IsAsset (FileAsset ''b.txt'' ''2222''))])
        @ map (\<lambda>name. DQ @ name @ DQ) (sortedNames
         [(''b'', IsAsset (FileAsset ''b.txt'' ''2223'')), (''c'', IsAsset (FileAsset ''c.txt'' ''3333'')),
       (''d'', IsAsset (FileAsset ''d.txt'' ''4445''))])))
      False 2 False False)
     (mergeNames (sortedNames
         [(''d'', IsAsset (FileAsset ''d.txt'' ''4444'')), (''a'', IsAsset (FileAsset ''a.txt'' ''1111'')),
       (''b'', IsAsset (FileAsset ''b.txt'' ''2222''))])
       (sortedNames
         [(''b'', IsAsset (FileAsset ''b.txt'' ''2223'')), (''c'', IsAsset (FileAsset ''c.txt'' ''3333'')),
       (''d'', IsAsset (FileAsset ''d.txt'' ''4445''))])))
     = Inr [Styled OpDelete (''      - '' @ DQ @ ''a'' @ DQ @ '': ''),
            Styled OpDelete ''asset(file:1111) { a.txt }'', Styled OpDelete NL,
            Styled OpUpdate (''      ~ '' @ DQ @ ''b'' @ DQ @ '': ''),
            Styled OpUpdate (''asset(file:2222->2223) { b.txt }'' @ NL),
            Styled OpCreate (''      + '' @ DQ @ ''c'' @ DQ @ '': ''),
            Styled OpCreate ''asset(file:3333) { c.txt }'', Styled OpCreate NL,
            Styled OpUpdate (''      ~ '' @ DQ @ ''d'' @ DQ @ '': ''),
            Styled OpUpdate (''asset(file:4444->4445) { d.txt }'' @ NL)]"
    by code_simp
  then show ?thesis
    using printAssetsDiff_sorted_merge [where ex = exampleExternals
      and oldAssets = "[(''d'', IsAsset (FileAsset ''d.txt'' ''4444'')), (''a'', IsAsset (FileAsset ''a.txt'' ''1111'')),
       (''b'', IsAsset (FileAsset ''b.txt'' ''2222''))]"
      and newAssets = "[(''b'', IsAsset (FileAsset ''b.txt'' ''2223'')), (''c'', IsAsset (FileAsset ''c.txt'' ''3333'')),
       (''d'', IsAsset (FileAsset ''d.txt'' ''4445''))]"
      and planning = False and indent = 2 and summary = False and debug = False,
      THEN conjunct1, THEN mp, OF sk]
    by (simp only:)
qed

text \<open>
  Claim C5 has the merge emit an entry for every name of every pair of entry maps, equal
  names recursing into the differ of the entry's kind.  The loop of \<open>printAssetsDiff\<close>
  switches on the kind of the old entry and asserts, unchecked, that the new entry has
  the same kind (\<open>newAsset.(*resource.Archive)\<close>, \<open>newAsset.(*resource.Asset)\<close>): where
  a name holds an asset in one map and an archive in the other the assertion panics and
  the rendering is lost, the entries already written with it.  The comment of the
  function has every asset held by both maps printed, and \<open>printArchiveDiff\<close>,
  \<open>printAssetDiff\<close> and \<open>printPropertyValueDiff\<close> each render a change of kind as a
  deletion followed by an addition.  Old \<open>{a: file asset, x: file asset}\<close> against new
  \<open>{x: file archive}\<close> panics, on its own and as the content of an archive-valued
  property that changed.
\<close>

theorem printAssetsDiff_kind_change:
  "printAssetsDiff exampleExternals
      [(''a'', IsAsset (FileAsset ''a.txt'' ''1111'')),
       (''x'', IsAsset (FileAsset ''x.txt'' ''2222''))]
      [(''x'', IsArchive (FileArchive ''x.zip'' ''3333''))]
      False 1 False False
     = Inl TypeAssertionFailed
   \<and> printAssetsDiff exampleExternals
      [(''x'', IsArchive (FileArchive ''x.zip'' ''3333''))]
      [(''x'', IsAsset (FileAsset ''x.txt'' ''2222''))]
      False 1 False False
     = Inl TypeAssertionFailed
   \<and> printPropertyValueDiff exampleExternals (printPropertyTitle ''code'' 4 1)
      (ValueDiff
         (PArchive (AssetsArchive
            [(''a'', IsAsset (FileAsset ''a.txt'' ''1111'')),
             (''x'', IsAsset (FileAsset ''x.txt'' ''2222''))] ''aaaa''))
         (PArchive (AssetsArchive
            [(''x'', IsArchive (FileArchive ''x.zip'' ''3333''))] ''bbbb''))
         None None)
      False False 1 False False
     = Inl TypeAssertionFailed"
  by code_simp

section \<open>The replace flag through the diff tree\<close>

text \<open>
  The renderer the specification describes for a subtree whose key caused a replacement:
  the traversal of \<open>printObjectDiff\<close> and \<open>printPropertyValueDiff\<close> without the
  flag and without the replace-key set, in which a leaf update is always the generic
  fallback and \<open>printArchiveDiff\<close> is never called.
\<close>


function fallbackObjectDiff ::
    "externals \<Rightarrow> ObjectDiff \<Rightarrow> bool \<Rightarrow> int \<Rightarrow> bool \<Rightarrow> bool \<Rightarrow> result"
  and fallbackObjectDiffKeys ::
    "externals \<Rightarrow> ObjectDiff \<Rightarrow> nat \<Rightarrow> bool \<Rightarrow> int \<Rightarrow> bool \<Rightarrow> bool \<Rightarrow> string list \<Rightarrow> result"
  and fallbackValueDiff ::
    "externals \<Rightarrow> (StepOp \<Rightarrow> bool \<Rightarrow> result) \<Rightarrow> ValueDiff \<Rightarrow> bool \<Rightarrow> int \<Rightarrow> bool \<Rightarrow> bool \<Rightarrow> result"
where
  "fallbackObjectDiff ex diff planning indent summary debug =
     (if \<not> indent > 0 then Inl AssertFailed
      else fallbackObjectDiffKeys ex diff (maxKey (ObjectDiffKeys diff)) planning indent summary
             debug (ObjectDiffKeys diff))"
| "fallbackObjectDiffKeys ex diff maxkey planning indent summary debug [] = Inr []"
| "fallbackObjectDiffKeys ex diff maxkey planning indent summary debug (k # keys) =
     (let titleFunc = (\<lambda>top prefix. printPropertyTitle k maxkey indent top prefix) in
      case map_of (Adds diff) k of
        Some add \<Rightarrow>
          thenE (if shouldPrintPropertyValue add planning
                 then printAdd ex add titleFunc planning indent debug else Inr [])
                (fallbackObjectDiffKeys ex diff maxkey planning indent summary debug keys)
      | None \<Rightarrow>
          (case map_of (Deletes diff) k of
             Some delete \<Rightarrow>
               thenE (if shouldPrintPropertyValue delete planning
                      then printDelete ex delete titleFunc planning indent debug else Inr [])
                     (fallbackObjectDiffKeys ex diff maxkey planning indent summary debug keys)
           | None \<Rightarrow>
               (case map_of (Updates diff) k of
                  Some update \<Rightarrow>
                    thenE (fallbackValueDiff ex titleFunc update planning indent summary debug)
                          (fallbackObjectDiffKeys ex diff maxkey planning indent summary debug
                             keys)
                | None \<Rightarrow>
                    (let same = valueOrNull (map_of (Sames diff) k) in
                     thenE (if \<not> summary \<and> shouldPrintPropertyValue same planning then
                              thenE (titleFunc OpSame False)
                                    (printPropertyValue ex same planning indent OpSame False debug)
                            else Inr [])
                           (fallbackObjectDiffKeys ex diff maxkey planning indent summary debug
                              keys)))))"
| "fallbackValueDiff ex titleFunc diff planning indent summary debug =
     (if \<not> indent > 0 then Inl AssertFailed
      else
        (case Array diff of
           Some a \<Rightarrow>
             thenE (titleFunc OpUpdate True)
            (thenE (writeVerbatim OpUpdate (''['' @ NL))
            (thenE (seqAll (map (\<lambda>i.
                      (case map_of (ArrAdds a) i of
                         Some add \<Rightarrow>
                           printAdd ex add
                             (\<lambda>eop eprefix.
                                writeWithIndent (indent + 1) eop eprefix (''['' @ Itoa i @ '']: ''))
                             planning (indent + 2) debug
                       | None \<Rightarrow>
                           (case map_of (ArrDeletes a) i of
                              Some delete \<Rightarrow>
                                printDelete ex delete
                                  (\<lambda>eop eprefix.
                                     writeWithIndent (indent + 1) eop eprefix
                                       (''['' @ Itoa i @ '']: ''))
                                  planning (indent + 2) debug
                            | None \<Rightarrow>
                                (case map_of (ArrUpdates a) i of
                                   Some update \<Rightarrow>
                                     fallbackValueDiff ex
                                       (\<lambda>eop eprefix.
                                          writeWithIndent (indent + 1) eop eprefix
                                            (''['' @ Itoa i @ '']: ''))
                                       update planning (indent + 2) summary debug
                                 | None \<Rightarrow>
                                     if \<not> summary then
                                       thenE (writeWithIndent (indent + 1) OpSame False
                                                (''['' @ Itoa i @ '']: ''))
                                             (printPropertyValue ex
                                                (valueOrNull (map_of (ArrSames a) i)) planning
                                                (indent + 2) OpSame False debug)
                                     else Inr []))))
                    [0..Len a - 1]))
                   (writeWithIndentNoPrefix indent OpUpdate ('']'' @ NL))))
         | None \<Rightarrow>
             (case Object diff of
                Some od \<Rightarrow>
                  thenE (titleFunc OpUpdate True)
                 (thenE (writeVerbatim OpUpdate (''{'' @ NL))
                 (thenE (fallbackObjectDiff ex od planning (indent + 1) summary debug)
                        (writeWithIndentNoPrefix indent OpUpdate (''}'' @ NL))))
              | None \<Rightarrow>
                  thenE (if shouldPrintPropertyValue (Old diff) False
                         then printDelete ex (Old diff) titleFunc planning indent debug
                         else Inr [])
                        (if shouldPrintPropertyValue (New diff) False
                         then printAdd ex (New diff) titleFunc planning indent debug
                         else Inr []))))"
  by pat_completeness auto
termination
proof (relation "inv_image (less_than <*lex*> less_than) (\<lambda>x. case x of
      Inl (ex, diff, r) \<Rightarrow> (size diff, Suc (length (ObjectDiffKeys diff)))
    | Inr (Inl (ex, diff, mk, pl, ind, su, de, keys)) \<Rightarrow> (size diff, length keys)
    | Inr (Inr (ex, t, diff, r)) \<Rightarrow> (size diff, 0))")
  show "wf (inv_image (less_than <*lex*> less_than) (\<lambda>x. case x of
      Inl (ex, diff, r) \<Rightarrow> (size diff, Suc (length (ObjectDiffKeys diff)))
    | Inr (Inl (ex, diff, mk, pl, ind, su, de, keys)) \<Rightarrow> (size diff, length keys)
    | Inr (Inr (ex, t, diff, r)) \<Rightarrow> (size diff, 0)))"
    by (intro wf_inv_image wf_lex_prod wf_less_than)
qed (auto dest: Updates_size_less ArrUpdates_size_less Object_size_less)

declare fallbackObjectDiff.simps [simp del] fallbackObjectDiffKeys.simps [simp del]
  fallbackValueDiff.simps [simp del]


lemma causedReplace_fallback:
  "causedReplace \<longrightarrow> printObjectDiff ex od replaces causedReplace planning indent summary debug
     = fallbackObjectDiff ex od planning indent summary debug"
  "causedReplace \<longrightarrow> printObjectDiffKeys ex od replaces maxkey causedReplace planning indent summary debug keys
     = fallbackObjectDiffKeys ex od maxkey planning indent summary debug keys"
  "causedReplace \<longrightarrow> printPropertyValueDiff ex title vd causedReplace planning indent summary debug
     = fallbackValueDiff ex title vd planning indent summary debug"
proof (induction ex od replaces causedReplace planning indent summary debug
    and ex od replaces maxkey causedReplace planning indent summary debug keys
    and ex title vd causedReplace planning indent summary debug
    rule: printObjectDiff_printObjectDiffKeys_printPropertyValueDiff.induct)
  case (1 ex diff replaces causedReplace planning indent summary debug)
  then show ?case
    by (simp add: printObjectDiff.simps fallbackObjectDiff.simps Let_def)
next
  case (2 ex diff replaces maxkey causedReplace planning indent summary debug)
  show ?case
    by (simp add: printObjectDiffKeys.simps fallbackObjectDiffKeys.simps)
next
  case (3 ex diff replaces maxkey causedReplace planning indent summary debug k keys)
  show ?case
  proof
    assume cr: causedReplace
    have rest: "printObjectDiffKeys ex diff replaces maxkey True planning indent summary debug keys
                = fallbackObjectDiffKeys ex diff maxkey planning indent summary debug keys"
      using 3(1,3,4,5) cr
      by (cases "map_of (Adds diff) k"; cases "map_of (Deletes diff) k";
          cases "map_of (Updates diff) k") simp_all
    have upd: "printPropertyValueDiff ex (printPropertyTitle k maxkey indent) u True planning
                 indent summary debug
               = fallbackValueDiff ex (printPropertyTitle k maxkey indent) u planning indent
                   summary debug"
      if "map_of (Adds diff) k = None" "map_of (Deletes diff) k = None"
         "map_of (Updates diff) k = Some u" for u
      using 3(2) that cr by simp
    show "printObjectDiffKeys ex diff replaces maxkey causedReplace planning indent summary debug (k # keys)
          = fallbackObjectDiffKeys ex diff maxkey planning indent summary debug (k # keys)"
      using cr
      by (simp add: printObjectDiffKeys.simps fallbackObjectDiffKeys.simps Let_def rest upd
          split: option.splits)
  qed
next
  case (4 ex titleFunc diff causedReplace planning indent summary debug)
  show ?case
  proof
    assume cr: causedReplace
    have obj: "printObjectDiff ex od [] True planning (indent + 1) summary debug
               = fallbackObjectDiff ex od planning (indent + 1) summary debug"
      if "0 < indent" "Array diff = None" "Object diff = Some od" for od
      using 4 that cr by simp
    have elem: "printPropertyValueDiff ex
                  (\<lambda>eop eprefix. writeWithIndent (indent + 1) eop eprefix (''['' @ Itoa i @ '']: ''))
                  u True planning (indent + 2) summary debug
                = fallbackValueDiff ex
                  (\<lambda>eop eprefix. writeWithIndent (indent + 1) eop eprefix (''['' @ Itoa i @ '']: ''))
                  u planning (indent + 2) summary debug"
      if "0 < indent" "Array diff = Some a" "i \<in> set [0..Len a - 1]"
         "map_of (ArrAdds a) i = None" "map_of (ArrDeletes a) i = None"
         "map_of (ArrUpdates a) i = Some u" for a i u
      using 4 that cr by simp
    show "printPropertyValueDiff ex titleFunc diff causedReplace planning indent summary debug
          = fallbackValueDiff ex titleFunc diff planning indent summary debug"
    proof (cases "0 < indent")
      case False
      then show ?thesis
        by (simp add: printPropertyValueDiff.simps [of _ _ diff] fallbackValueDiff.simps [of _ _ diff])
    next
      case pos: True
      show ?thesis
      proof (cases "Array diff")
        case (Some a)
        have "map (\<lambda>i.
                 (case map_of (ArrAdds a) i of
                    Some add \<Rightarrow>
                      printAdd ex add
                        (\<lambda>eop eprefix.
                           writeWithIndent (indent + 1) eop eprefix (''['' @ Itoa i @ '']: ''))
                        planning (indent + 2) debug
                  | None \<Rightarrow>
                      (case map_of (ArrDeletes a) i of
                         Some delete \<Rightarrow>
                           printDelete ex delete
                             (\<lambda>eop eprefix.
                                writeWithIndent (indent + 1) eop eprefix
                                  (''['' @ Itoa i @ '']: ''))
                             planning (indent + 2) debug
                       | None \<Rightarrow>
                           (case map_of (ArrUpdates a) i of
                              Some update \<Rightarrow>
                                printPropertyValueDiff ex
                                  (\<lambda>eop eprefix.
                                     writeWithIndent (indent + 1) eop eprefix
                                       (''['' @ Itoa i @ '']: ''))
                                  update True planning (indent + 2) summary debug
                            | None \<Rightarrow>
                                if \<not> summary then
                                  thenE (writeWithIndent (indent + 1) OpSame False
                                           (''['' @ Itoa i @ '']: ''))
                                        (printPropertyValue ex
                                           (valueOrNull (map_of (ArrSames a) i)) planning
                                           (indent + 2) OpSame False debug)
                                else Inr []))))
               [0..Len a - 1]
            = map (\<lambda>i.
                 (case map_of (ArrAdds a) i of
                    Some add \<Rightarrow>
                      printAdd ex add
                        (\<lambda>eop eprefix.
                           writeWithIndent (indent + 1) eop eprefix (''['' @ Itoa i @ '']: ''))
                        planning (indent + 2) debug
                  | None \<Rightarrow>
                      (case map_of (ArrDeletes a) i of
                         Some delete \<Rightarrow>
                           printDelete ex delete
                             (\<lambda>eop eprefix.
                                writeWithIndent (indent + 1) eop eprefix
                                  (''['' @ Itoa i @ '']: ''))
                             planning (indent + 2) debug
                       | None \<Rightarrow>
                           (case map_of (ArrUpdates a) i of
                              Some update \<Rightarrow>
                                fallbackValueDiff ex
                                  (\<lambda>eop eprefix.
                                     writeWithIndent (indent + 1) eop eprefix
                                       (''['' @ Itoa i @ '']: ''))
                                  update planning (indent + 2) summary debug
                            | None \<Rightarrow>
                                if \<not> summary then
                                  thenE (writeWithIndent (indent + 1) OpSame False
                                           (''['' @ Itoa i @ '']: ''))
                                        (printPropertyValue ex
                                           (valueOrNull (map_of (ArrSames a) i)) planning
                                           (indent + 2) OpSame False debug)
                                else Inr []))))
               [0..Len a - 1]"
        proof (rule map_cong [OF refl])
          fix i assume i: "i \<in> set [0..Len a - 1]"
          show "(case map_of (ArrAdds a) i of
                    Some add \<Rightarrow>
                      printAdd ex add
                        (\<lambda>eop eprefix.
                           writeWithIndent (indent + 1) eop eprefix (''['' @ Itoa i @ '']: ''))
                        planning (indent + 2) debug
                  | None \<Rightarrow>
                      (case map_of (ArrDeletes a) i of
                         Some delete \<Rightarrow>
                           printDelete ex delete
                             (\<lambda>eop eprefix.
                                writeWithIndent (indent + 1) eop eprefix
                                  (''['' @ Itoa i @ '']: ''))
                             planning (indent + 2) debug
                       | None \<Rightarrow>
                           (case map_of (ArrUpdates a) i of
                              Some update \<Rightarrow>
                                printPropertyValueDiff ex
                                  (\<lambda>eop eprefix.
                                     writeWithIndent (indent + 1) eop eprefix
                                       (''['' @ Itoa i @ '']: ''))
                                  update True planning (indent + 2) summary debug
                            | None \<Rightarrow>
                                if \<not> summary then
                                  thenE (writeWithIndent (indent + 1) OpSame False
                                           (''['' @ Itoa i @ '']: ''))
                                        (printPropertyValue ex
                                           (valueOrNull (map_of (ArrSames a) i)) planning
                                           (indent + 2) OpSame False debug)
                                else Inr [])))
              = (case map_of (ArrAdds a) i of
                    Some add \<Rightarrow>
                      printAdd ex add
                        (\<lambda>eop eprefix.
                           writeWithIndent (indent + 1) eop eprefix (''['' @ Itoa i @ '']: ''))
                        planning (indent + 2) debug
                  | None \<Rightarrow>
                      (case map_of (ArrDeletes a) i of
                         Some delete \<Rightarrow>
                           printDelete ex delete
                             (\<lambda>eop eprefix.
                                writeWithIndent (indent + 1) eop eprefix
                                  (''['' @ Itoa i @ '']: ''))
                             planning (indent + 2) debug
                       | None \<Rightarrow>
                           (case map_of (ArrUpdates a) i of
                              Some update \<Rightarrow>
                                fallbackValueDiff ex
                                  (\<lambda>eop eprefix.
                                     writeWithIndent (indent + 1) eop eprefix
                                       (''['' @ Itoa i @ '']: ''))
                                  update planning (indent + 2) summary debug
                            | None \<Rightarrow>
                                if \<not> summary then
                                  thenE (writeWithIndent (indent + 1) OpSame False
                                           (''['' @ Itoa i @ '']: ''))
                                        (printPropertyValue ex
                                           (valueOrNull (map_of (ArrSames a) i)) planning
                                           (indent + 2) OpSame False debug)
                                else Inr [])))"
          proof (cases "map_of (ArrAdds a) i")
            case (Some add)
            then show ?thesis by simp
          next
            case na: None
            show ?thesis
            proof (cases "map_of (ArrDeletes a) i")
              case (Some del)
              with na show ?thesis by simp
            next
              case nd: None
              show ?thesis
              proof (cases "map_of (ArrUpdates a) i")
                case None
                with na nd show ?thesis by simp
              next
                case (Some u)
                from elem [OF pos \<open>Array diff = Some a\<close> i na nd Some] na nd Some
                show ?thesis by simp
              qed
            qed
          qed
        qed
        note arr = this
        show ?thesis
          apply (subst printPropertyValueDiff.simps)
          apply (subst fallbackValueDiff.simps)
          apply (simp only: Let_def Some pos cr option.case not_True_eq_False if_False arr)
          done
      next
        case None
        with pos cr obj show ?thesis
          by (simp add: printPropertyValueDiff.simps [of _ _ diff]
              fallbackValueDiff.simps [of _ _ diff] Let_def split: option.splits)
      qed
    qed
  qed
qed


text \<open>
  Claim C3.  When the loop of \<open>printObjectDiff\<close> reaches an updated key that is in the
  replace-key set, the flag is true from there on, whatever it was before: the key's
  value diff is rendered by \<open>fallbackValueDiff\<close>, the traversal in which every leaf
  update is the Delete-tagged old value followed by the Create-tagged new value and the
  archive differ is never called.  With the flag true, \<open>printPropertyValueDiff\<close> and
  \<open>printObjectDiff\<close> are that traversal on every diff tree, through array elements and
  nested objects alike.
\<close>

theorem causedReplace_monotonic:
  "(map_of (Adds diff) k = None \<and> map_of (Deletes diff) k = None
      \<and> map_of (Updates diff) k = Some u \<and> k \<in> set replaces \<longrightarrow>
      printObjectDiffKeys ex diff replaces maxkey causedReplace planning indent summary debug
        (k # keys)
      = thenE (fallbackValueDiff ex (printPropertyTitle k maxkey indent) u planning indent
                 summary debug)
              (printObjectDiffKeys ex diff replaces maxkey True planning indent summary debug
                 keys))
   \<and> printPropertyValueDiff ex title vd True planning indent' summary debug
       = fallbackValueDiff ex title vd planning indent' summary debug
   \<and> printObjectDiff ex od replaces' True planning indent' summary debug
       = fallbackObjectDiff ex od planning indent' summary debug"
proof (intro conjI impI)
  assume h: "map_of (Adds diff) k = None \<and> map_of (Deletes diff) k = None
      \<and> map_of (Updates diff) k = Some u \<and> k \<in> set replaces"
  then have ne: "replaces \<noteq> []" by auto
  from h ne show "printObjectDiffKeys ex diff replaces maxkey causedReplace planning indent
        summary debug (k # keys)
      = thenE (fallbackValueDiff ex (printPropertyTitle k maxkey indent) u planning indent
                 summary debug)
              (printObjectDiffKeys ex diff replaces maxkey True planning indent summary debug
                 keys)"
    by (simp add: printObjectDiffKeys.simps Let_def causedReplace_fallback(3))
next
  show "printPropertyValueDiff ex title vd True planning indent' summary debug
       = fallbackValueDiff ex title vd planning indent' summary debug"
    by (simp add: causedReplace_fallback(3))
next
  show "printObjectDiff ex od replaces' True planning indent' summary debug
       = fallbackObjectDiff ex od planning indent' summary debug"
    by (simp add: causedReplace_fallback(1))
qed

theorem causedReplace_monotonic_witness:
  "printObjectDiffKeys exampleExternals
      (ObjectDiff [] []
         [(''code'',
           ValueDiff (PObject [(''zip'', PArchive (FileArchive ''a.zip'' ''1111''))])
             (PObject [(''zip'', PArchive (FileArchive ''b.zip'' ''2222''))]) None
             (Some (ObjectDiff [] []
                [(''zip'',
                  ValueDiff (PArchive (FileArchive ''a.zip'' ''1111''))
                    (PArchive (FileArchive ''b.zip'' ''2222'')) None None)]
                [])))]
         [])
      [''code''] 4 False False 1 False False [''code'']
   = Inr [Styled OpUpdate ''  ~ code: '', Styled OpUpdate (''{'' @ NL),
          Styled OpDelete ''      - zip: '', Styled OpDelete ''archive(file:1111) { a.zip }'',
          Styled OpDelete NL,
          Styled OpCreate ''      + zip: '', Styled OpCreate ''archive(file:2222) { b.zip }'',
          Styled OpCreate NL,
          Styled OpUpdate (''    }'' @ NL)]"
proof -
  have hyp: "map_of (Adds (ObjectDiff [] []
         [(''code'',
           ValueDiff (PObject [(''zip'', PArchive (FileArchive ''a.zip'' ''1111''))])
             (PObject [(''zip'', PArchive (FileArchive ''b.zip'' ''2222''))]) None
             (Some (ObjectDiff [] []
                [(''zip'',
                  ValueDiff (PArchive (FileArchive ''a.zip'' ''1111''))
                    (PArchive (FileArchive ''b.zip'' ''2222'')) None None)]
                [])))]
         [])) ''code'' = None
    \<and> map_of (Deletes (ObjectDiff [] []
         [(''code'',
           ValueDiff (PObject [(''zip'', PArchive (FileArchive ''a.zip'' ''1111''))])
             (PObject [(''zip'', PArchive (FileArchive ''b.zip'' ''2222''))]) None
             (Some (ObjectDiff [] []
                [(''zip'',
                  ValueDiff (PArchive (FileArchive ''a.zip'' ''1111''))
                    (PArchive (FileArchive ''b.zip'' ''2222'')) None None)]
                [])))]
         [])) ''code'' = None
    \<and> map_of (Updates (ObjectDiff [] []
         [(''code'',
           ValueDiff (PObject [(''zip'', PArchive (FileArchive ''a.zip'' ''1111''))])
             (PObject [(''zip'', PArchive (FileArchive ''b.zip'' ''2222''))]) None
             (Some (ObjectDiff [] []
                [(''zip'',
                  ValueDiff (PArchive (FileArchive ''a.zip'' ''1111''))
                    (PArchive (FileArchive ''b.zip'' ''2222'')) None None)]
                [])))]
         [])) ''code''
        = Some (ValueDiff (PObject [(''zip'', PArchive (FileArchive ''a.zip'' ''1111''))])
             (PObject [(''zip'', PArchive (FileArchive ''b.zip'' ''2222''))]) None
             (Some (ObjectDiff [] []
                [(''zip'',
                  ValueDiff (PArchive (FileArchive ''a.zip'' ''1111''))
                    (PArchive (FileArchive ''b.zip'' ''2222'')) None None)]
                [])))
    \<and> ''code'' \<in> set [''code'']"
    by simp
  have ev: "thenE (fallbackValueDiff exampleExternals (printPropertyTitle ''code'' 4 1)
             (ValueDiff (PObject [(''zip'', PArchive (FileArchive ''a.zip'' ''1111''))])
               (PObject [(''zip'', PArchive (FileArchive ''b.zip'' ''2222''))]) None
               (Some (ObjectDiff [] []
                  [(''zip'',
                    ValueDiff (PArchive (FileArchive ''a.zip'' ''1111''))
                      (PArchive (FileArchive ''b.zip'' ''2222'')) None None)]
                  [])))
             False 1 False False)
          (printObjectDiffKeys exampleExternals
            (ObjectDiff [] []
               [(''code'',
                 ValueDiff (PObject [(''zip'', PArchive (FileArchive ''a.zip'' ''1111''))])
                   (PObject [(''zip'', PArchive (FileArchive ''b.zip'' ''2222''))]) None
                   (Some (ObjectDiff [] []
                      [(''zip'',
                        ValueDiff (PArchive (FileArchive ''a.zip'' ''1111''))
                          (PArchive (FileArchive ''b.zip'' ''2222'')) None None)]
                      [])))]
               [])
            [''code''] 4 True False 1 False False [])
     = Inr [Styled OpUpdate ''  ~ code: '', Styled OpUpdate (''{'' @ NL),
          Styled OpDelete ''      - zip: '', Styled OpDelete ''archive(file:1111) { a.zip }'',
          Styled OpDelete NL,
          Styled OpCreate ''      + zip: '', Styled OpCreate ''archive(file:2222) { b.zip }'',
          Styled OpCreate NL,
          Styled OpUpdate (''    }'' @ NL)]"
    by code_simp
  from causedReplace_monotonic [where ex = exampleExternals and maxkey = 4
        and causedReplace = False and planning = False and indent = 1 and summary = False
        and debug = False and keys = "[]", THEN conjunct1, THEN mp, OF hyp]
  show ?thesis
    by (simp only: ev)
qed

end
